theory Spec2Isabelle
  imports Complex_Main
begin

section \<open>Matrix product states: the bond update and its bookkeeping\<close>

text \<open>
  The development follows the two source files of the repository: the inline
  implementations of the MPS functions (\<open>svdBond\<close>, \<open>isOrtho\<close>, \<open>orthoCenter\<close>,
  \<open>norm\<close>, \<open>applyGate\<close>, \<open>overlapC\<close>, \<open>overlap\<close>, \<open>sum\<close>) and the header
  \<open>itensor/qn.h\<close> of the quantum numbers.

  The tensor type \<open>ITensor\<close>, its algebra, the option container \<open>Args\<close> and the
  class declaration of \<open>MPS\<close> itself are declared in headers that are not among
  the sources. The tensor library is therefore a parameter of every function
  below (the record \<open>prims\<close>); a tensor is a value of a type variable \<open>'T\<close>, a
  \<open>Spectrum\<close> of \<open>'S\<close>, the \<open>BigMatrixT\<close> argument of \<open>'P\<close> and an \<open>Index\<close> of
  \<open>'I\<close>. The calls into the library are taken to return; a failure inside the
  library is outside of this development.

  C++ \<open>int\<close> is modelled by \<open>int\<close>: the integers here are site positions and
  orthogonality limits, and signed overflow has no defined behaviour in C++.
  C++ \<open>Real\<close> (\<open>double\<close>) is modelled by \<open>real\<close>: the values a finite double
  denotes, compared exactly as the doubles are; rounding, infinities and NaN
  are not represented. A literal that a value is compared against in
  \<open>svdBond\<close> is the double it denotes; the literal in \<open>overlap\<close> is a factor of
  a product that is rounded in any case, and the power of ten stands for it. The division \<open>1./x\<close> in \<open>svdBond\<close> is an infinity
  for \<open>x = 0\<close> where the quotient of \<open>real\<close> is 0; it is therefore the
  operation \<open>one_over\<close> of the library record and not the quotient of HOL.
\<close>

subsection \<open>Errors and diagnostic output\<close>

text \<open>
  \<open>Error(msg)\<close> aborts the running operation with a message. A function that
  can call it returns \<open>Inl (Error msg)\<close> in that case.
\<close>

datatype error = Error string

text \<open>
  A line printed by \<open>printfln\<close>: the format string and the values formatted
  into it.
\<close>

datatype outmsg = Printfln_int string "int list" | Printfln_real string "real list"

subsection \<open>Directions and options\<close>

text \<open>
  Modelled from the spec: the enumeration \<open>Direction\<close> is declared outside of the
  sources; the spec knows a leftward and a rightward sweep, which the code names
  \<open>Fromleft\<close> and \<open>Fromright\<close>.
\<close>

datatype Direction = Fromleft | Fromright

text \<open>
  Modelled from the spec: the option container \<open>Args\<close> is declared outside of
  the sources. It is a bag of named options; \<open>getReal\<close> and \<open>getBool\<close> return the
  value stored under a name, or the given default when the name is not set.
\<close>

record Args =
  realArgs :: "string \<rightharpoonup> real"
  boolArgs :: "string \<rightharpoonup> bool"

definition getReal :: "Args \<Rightarrow> string \<Rightarrow> real \<Rightarrow> real" where
  "getReal args name dflt = (case realArgs args name of None \<Rightarrow> dflt | Some v \<Rightarrow> v)"

definition getBool :: "Args \<Rightarrow> string \<Rightarrow> bool \<Rightarrow> bool" where
  "getBool args name dflt = (case boolArgs args name of None \<Rightarrow> dflt | Some v \<Rightarrow> v)"

subsection \<open>The state\<close>

text \<open>
  Modelled from the spec: the class \<open>MPS\<close> is declared outside of the sources.
  The functions of the sources use its members \<open>A_\<close> (the site tensors, indexed
  by position without a bounds check), \<open>l_orth_lim_\<close> and \<open>r_orth_lim_\<close> (the two
  orthogonality limits) and its accessors \<open>N()\<close>, \<open>A(i)\<close>, \<open>leftLim()\<close> and
  \<open>rightLim()\<close>. The site tensors are a store from positions to tensors: an access
  outside of the allocated positions has no defined behaviour in C++ and is not
  told apart here. \<open>atb\<close> is the bond that \<open>setBond\<close> records.
\<close>

record 'T MPS =
  mpsN :: int
  mpsA :: "int \<Rightarrow> 'T"
  l_orth_lim :: int
  r_orth_lim :: int
  atb :: int

definition N_of :: "'T MPS \<Rightarrow> int" where
  "N_of psi = mpsN psi"

definition A_of :: "'T MPS \<Rightarrow> int \<Rightarrow> 'T" where
  "A_of psi i = mpsA psi i"

definition leftLim :: "'T MPS \<Rightarrow> int" where
  "leftLim psi = l_orth_lim psi"

definition rightLim :: "'T MPS \<Rightarrow> int" where
  "rightLim psi = r_orth_lim psi"

text \<open>
  Modelled from the spec: \<open>setBond(b)\<close> is defined outside of the sources. It
  records which bond is about to be modified and has no other observable effect.
\<close>

definition setBond :: "int \<Rightarrow> 'T MPS \<Rightarrow> 'T MPS" where
  "setBond b psi = psi\<lparr>atb := b\<rparr>"

subsection \<open>The tensor library\<close>

text \<open>
  The operations of the tensor library that the sources call, with the constant
  \<open>MIN_CUT\<close> and the default-constructed values of \<open>ITensor\<close>, of the
  \<open>BigMatrixT\<close> argument and of \<open>MPS\<close>. \<open>svd(AA,U,D,V,args)\<close> and
  \<open>denmatDecomp(AA,A,B,dir,PH,args)\<close> overwrite their tensor arguments after \<open>AA\<close>
  and return a \<open>Spectrum\<close>: here they return the spectrum with the new tensors.
\<close>

record ('T, 'S, 'P, 'I) prims =
  MIN_CUT :: real
  one_over :: "real \<Rightarrow> real"
  ITensor_default :: 'T
  LocalOp_default :: 'P
  MPS_default :: "'T MPS"
  svd :: "'T \<Rightarrow> 'T \<Rightarrow> 'T \<Rightarrow> 'T \<Rightarrow> Args \<Rightarrow> 'S \<times> 'T \<times> 'T \<times> 'T"
  denmatDecomp :: "'T \<Rightarrow> 'T \<Rightarrow> 'T \<Rightarrow> Direction \<Rightarrow> 'P \<Rightarrow> Args \<Rightarrow> 'S \<times> 'T \<times> 'T"
  norm_ITensor :: "'T \<Rightarrow> real"
  mult :: "'T \<Rightarrow> 'T \<Rightarrow> 'T"
  scale :: "'T \<Rightarrow> real \<Rightarrow> 'T"
  dag :: "'T \<Rightarrow> 'T"
  prime_ind :: "'T \<Rightarrow> 'I \<Rightarrow> 'T"
  prime_Link :: "'T \<Rightarrow> 'T"
  noprime :: "'T \<Rightarrow> 'T"
  commonIndex_Link :: "'T \<Rightarrow> 'T \<Rightarrow> 'I"
  index_bool :: "'I \<Rightarrow> bool"
  cplx :: "'T \<Rightarrow> complex"
  plusEq :: "'T MPS \<Rightarrow> 'T MPS \<Rightarrow> Args \<Rightarrow> 'T MPS"

subsection \<open>svdBond\<close>

text \<open>
  The two literals that \<open>svdBond\<close> compares against, \<open>1E-12\<close> and \<open>1E-16\<close>, are
  the doubles nearest to these powers of ten (\<open>0x1.19799812dea11p-40\<close> and
  \<open>0x1.cd2b297d889bcp-54\<close>), here with their exact values, so that the
  comparisons are those of the doubles.
\<close>

definition double_1E_12 :: real where
  "double_1E_12 = 4951760157141521 / 2 ^ 92"

definition double_1E_16 :: real where
  "double_1E_16 = 2028240960365167 / 2 ^ 104"

text \<open>
  The exact branch of \<open>svdBond\<close>: \<open>svd\<close> writes \<open>A_[b]\<close>, \<open>D\<close> and \<open>A_[b+1]\<close>; \<open>D\<close>
  is scaled by \<open>1./norm(D)\<close> when \<open>DoNormalize\<close> is set and then multiplied into
  \<open>A_[b+1]\<close> (from the left) or \<open>A_[b]\<close>.
\<close>

definition svdBond_svd ::
  "('T, 'S, 'P, 'I) prims \<Rightarrow> int \<Rightarrow> 'T \<Rightarrow> Direction \<Rightarrow> Args \<Rightarrow> 'T MPS \<Rightarrow> 'S \<times> 'T MPS" where
  "svdBond_svd lib b AA dir args psi =
    (case svd lib AA (mpsA psi b) (ITensor_default lib) (mpsA psi (b + 1)) args of
      (res, U, D0, V) \<Rightarrow>
        let A1 = (mpsA psi)(b := U, b + 1 := V);
            D = (if getBool args ''DoNormalize'' False
                 then scale lib D0 (one_over lib (norm_ITensor lib D0)) else D0);
            A2 = (if dir = Fromleft then A1(b + 1 := mult lib (A1 (b + 1)) D)
                  else A1(b := mult lib (A1 b) D))
        in (res, psi\<lparr>mpsA := A2\<rparr>))"

text \<open>
  The density matrix branch: \<open>denmatDecomp\<close> writes \<open>A_[b]\<close> and \<open>A_[b+1]\<close>; when
  \<open>DoNormalize\<close> is set the orthogonality centre \<open>oc\<close> is scaled by \<open>1./nrm\<close>
  unless its norm is at most \<open>1E-16\<close>.
\<close>

definition svdBond_denmat ::
  "('T, 'S, 'P, 'I) prims \<Rightarrow> int \<Rightarrow> 'T \<Rightarrow> Direction \<Rightarrow> 'P \<Rightarrow> Args \<Rightarrow> 'T MPS \<Rightarrow> 'S \<times> 'T MPS" where
  "svdBond_denmat lib b AA dir PH args psi =
    (case denmatDecomp lib AA (mpsA psi b) (mpsA psi (b + 1)) dir PH args of
      (res, Ab, Ab1) \<Rightarrow>
        let A1 = (mpsA psi)(b := Ab, b + 1 := Ab1);
            A2 = (if getBool args ''DoNormalize'' False
                  then let oc = (if dir = Fromleft then b + 1 else b);
                           nrm = norm_ITensor lib (A1 oc)
                       in if nrm > double_1E_16
                          then A1(oc := scale lib (A1 oc) (one_over lib nrm)) else A1
                  else A1)
        in (res, psi\<lparr>mpsA := A2\<rparr>))"

text \<open>The last block of \<open>svdBond\<close>: the new orthogonality limits.\<close>

definition svdBond_lims :: "int \<Rightarrow> Direction \<Rightarrow> 'T MPS \<Rightarrow> 'T MPS" where
  "svdBond_lims b dir psi =
    (if dir = Fromleft
     then let psi1 = psi\<lparr>l_orth_lim := b\<rparr>
          in if r_orth_lim psi1 < b + 2 then psi1\<lparr>r_orth_lim := b + 2\<rparr> else psi1
     else let psi1 = (if l_orth_lim psi > b - 1 then psi\<lparr>l_orth_lim := b - 1\<rparr> else psi)
          in psi1\<lparr>r_orth_lim := b + 1\<rparr>)"

text \<open>
  The decomposition inside \<open>svdBond\<close>: the options \<open>Noise\<close>, \<open>Cutoff\<close> and \<open>UseSVD\<close>
  select the exact branch or the density matrix branch.
\<close>

definition svdBond_decomp ::
  "('T, 'S, 'P, 'I) prims \<Rightarrow> int \<Rightarrow> 'T \<Rightarrow> Direction \<Rightarrow> 'P \<Rightarrow> Args \<Rightarrow> 'T MPS \<Rightarrow> 'S \<times> 'T MPS" where
  "svdBond_decomp lib b AA dir PH args psi =
    (let noise = getReal args ''Noise'' 0;
         cutoff = getReal args ''Cutoff'' (MIN_CUT lib);
         usesvd = getBool args ''UseSVD'' False
     in if usesvd \<or> (noise = 0 \<and> cutoff < double_1E_12)
        then svdBond_svd lib b AA dir args psi
        else svdBond_denmat lib b AA dir PH args psi)"

text \<open>
  \<open>MPS::svdBond(b,AA,dir,PH,args)\<close>. The result is the error or the spectrum,
  the state the call leaves and the lines it has printed.
\<close>

definition svdBond ::
  "('T, 'S, 'P, 'I) prims \<Rightarrow> int \<Rightarrow> 'T \<Rightarrow> Direction \<Rightarrow> 'P \<Rightarrow> Args \<Rightarrow> 'T MPS
    \<Rightarrow> (error + 'S) \<times> 'T MPS \<times> outmsg list" where
  "svdBond lib b AA dir PH args psi0 =
    (let psi = setBond b psi0 in
     if dir = Fromleft \<and> b - 1 > leftLim psi
     then (Inl (Error ''b-1 > l_orth_lim_''), psi,
           [Printfln_int ''b=%d, l_orth_lim_=%d'' [b, leftLim psi]])
     else if dir = Fromright \<and> b + 2 < rightLim psi
     then (Inl (Error ''b+2 < r_orth_lim_''), psi,
           [Printfln_int ''b=%d, r_orth_lim_=%d'' [b, rightLim psi]])
     else case svdBond_decomp lib b AA dir PH args psi of
            (res, psi1) \<Rightarrow> (Inr res, svdBond_lims b dir psi1, []))"

text \<open>
  Modelled from the spec: the overload \<open>svdBond(b,AA,dir,args)\<close> that \<open>applyGate\<close>
  calls is declared outside of the sources; it invokes the bond decomposition on
  the bond in the requested direction, here with a default-constructed \<open>PH\<close>.
\<close>

definition svdBond_noPH ::
  "('T, 'S, 'P, 'I) prims \<Rightarrow> int \<Rightarrow> 'T \<Rightarrow> Direction \<Rightarrow> Args \<Rightarrow> 'T MPS
    \<Rightarrow> (error + 'S) \<times> 'T MPS \<times> outmsg list" where
  "svdBond_noPH lib b AA dir args psi = svdBond lib b AA dir (LocalOp_default lib) args psi"

subsection \<open>Orthogonality centre, norm, gate application\<close>

definition isOrtho :: "'T MPS \<Rightarrow> bool" where
  "isOrtho psi = (leftLim psi + 1 = rightLim psi - 1)"

definition orthoCenter :: "'T MPS \<Rightarrow> error + int" where
  "orthoCenter psi =
    (if \<not> isOrtho psi then Inl (Error ''orthogonality center not well defined.'')
     else Inr (leftLim psi + 1))"

text \<open>\<open>norm(MPS const&)\<close>; the name \<open>norm\<close> is taken in HOL.\<close>

definition norm_MPS :: "('T, 'S, 'P, 'I) prims \<Rightarrow> 'T MPS \<Rightarrow> error + real" where
  "norm_MPS lib psi =
    (if \<not> isOrtho psi
     then Inl (Error ''MPS must have well-defined ortho center to compute norm; call .position(j) or .orthogonalize() to set ortho center'')
     else case orthoCenter psi of
            Inl e \<Rightarrow> Inl e
          | Inr c \<Rightarrow> Inr (norm_ITensor lib (A_of psi c)))"

text \<open>
  \<open>applyGate(gate,psi,args)\<close>. The member \<open>psi.orthoCenter()\<close> is declared
  outside of the sources; by the spec it returns \<open>leftLim+1\<close> and fails if
  \<open>isOrtho()\<close> is false, as the function \<open>orthoCenter\<close> above does, which stands
  for it. The result is the error if there is one, the state the call leaves
  and the lines it has printed.
\<close>

definition applyGate ::
  "('T, 'S, 'P, 'I) prims \<Rightarrow> 'T \<Rightarrow> 'T MPS \<Rightarrow> Args \<Rightarrow> (error + unit) \<times> 'T MPS \<times> outmsg list" where
  "applyGate lib gate psi args =
    (let fromleft = getBool args ''Fromleft'' True in
     case orthoCenter psi of
       Inl e \<Rightarrow> (Inl e, psi, [])
     | Inr c \<Rightarrow>
         let AA = noprime lib (mult lib (mult lib (A_of psi c) (A_of psi (c + 1))) gate)
         in (case (if fromleft then svdBond_noPH lib c AA Fromleft args psi
                   else svdBond_noPH lib c AA Fromright args psi) of
               (Inl e, psi1, out) \<Rightarrow> (Inl e, psi1, out)
             | (Inr res, psi1, out) \<Rightarrow> (Inr (), psi1, out)))"

subsection \<open>Overlap\<close>

definition linkInd :: "('T, 'S, 'P, 'I) prims \<Rightarrow> 'T MPS \<Rightarrow> int \<Rightarrow> 'I" where
  "linkInd lib psi b = commonIndex_Link lib (A_of psi b) (A_of psi (b + 1))"

text \<open>The loop of \<open>overlapC\<close>: \<open>for(i = 2; i < N; ++i)\<close>.\<close>

function overlapC_loop ::
  "('T, 'S, 'P, 'I) prims \<Rightarrow> 'T MPS \<Rightarrow> 'T MPS \<Rightarrow> int \<Rightarrow> int \<Rightarrow> 'T \<Rightarrow> 'T" where
  "overlapC_loop lib psi phi i N L =
    (if i < N
     then overlapC_loop lib psi phi (i + 1) N
            (mult lib (mult lib L (A_of phi i)) (dag lib (prime_Link lib (A_of psi i))))
     else L)"
  by pat_completeness auto
termination
  by (relation "measure (\<lambda>(lib, psi, phi, i, N, L). nat (N - i))") auto

declare overlapC_loop.simps [simp del]

definition overlapC :: "('T, 'S, 'P, 'I) prims \<Rightarrow> 'T MPS \<Rightarrow> 'T MPS \<Rightarrow> error + complex" where
  "overlapC lib psi phi =
    (let N = N_of psi in
     if N \<noteq> N_of phi then Inl (Error ''overlap: mismatched N'')
     else
       let l1 = linkInd lib psi 1;
           L0 = A_of phi 1;
           L1 = (if index_bool lib l1
                 then mult lib L0 (dag lib (prime_ind lib (A_of psi 1) l1))
                 else mult lib L0 (dag lib (A_of psi 1)))
       in if N = 1 then Inr (cplx lib L1)
          else
            let L2 = overlapC_loop lib psi phi 2 N L1;
                L3 = mult lib L2 (A_of phi N);
                lNm = linkInd lib psi (N - 1)
            in if index_bool lib lNm
               then Inr (cplx lib (mult lib (dag lib (prime_ind lib (A_of psi N) lNm)) L3))
               else Inr (cplx lib (mult lib (dag lib (A_of psi N)) L3)))"

text \<open>\<open>overlap(psi,phi,re,im)\<close>: the two output parameters are returned as a pair.\<close>

definition overlap_re_im ::
  "('T, 'S, 'P, 'I) prims \<Rightarrow> 'T MPS \<Rightarrow> 'T MPS \<Rightarrow> error + real \<times> real" where
  "overlap_re_im lib psi phi =
    (case overlapC lib psi phi of
       Inl e \<Rightarrow> Inl e
     | Inr z \<Rightarrow> Inr (Re z, Im z))"

text \<open>
  \<open>Real overlap(psi,phi)\<close>: the result, or the error, and the lines printed.
\<close>

definition overlap ::
  "('T, 'S, 'P, 'I) prims \<Rightarrow> 'T MPS \<Rightarrow> 'T MPS \<Rightarrow> (error + real) \<times> outmsg list" where
  "overlap lib psi phi =
    (case overlap_re_im lib psi phi of
       Inl e \<Rightarrow> (Inl e, [])
     | Inr (re, im) \<Rightarrow>
         (Inr re,
          if \<bar>im\<bar> > 1 / 10 ^ 12 * \<bar>re\<bar>
          then [Printfln_real ''Real overlap: WARNING, dropping non-zero imaginary part (=%.5E) of expectation value.'' [im]]
          else []))"

subsection \<open>Sums of states\<close>

text \<open>\<open>sum(L,R,args)\<close>: a copy of \<open>L\<close> to which \<open>plusEq(R,args)\<close> is applied.\<close>

definition sum2 :: "('T, 'S, 'P, 'I) prims \<Rightarrow> 'T MPS \<Rightarrow> 'T MPS \<Rightarrow> Args \<Rightarrow> 'T MPS" where
  "sum2 lib L R args = plusEq lib L R args"

text \<open>
  \<open>std::vector::at\<close> checks its index and throws \<open>std::out_of_range\<close>; reading and
  writing an element are modelled with that check.
\<close>

definition vec_at :: "'a list \<Rightarrow> nat \<Rightarrow> error + 'a" where
  "vec_at xs i = (if i < length xs then Inr (xs ! i) else Inl (Error ''out_of_range''))"

definition vec_at_assign :: "'a list \<Rightarrow> nat \<Rightarrow> 'a \<Rightarrow> error + 'a list" where
  "vec_at_assign xs i v = (if i < length xs then Inr (xs[i := v]) else Inl (Error ''out_of_range''))"

text \<open>
  The loop of \<open>sum\<close> over the pairs:
  \<open>for(n = 0, np = 0; n < Nt-1; n += 2, ++np)\<close>. It runs only for \<open>Nt > 2\<close>,
  where the unsigned \<open>Nt-1\<close> does not wrap.
\<close>

function sum_loop ::
  "('T, 'S, 'P, 'I) prims \<Rightarrow> 'T MPS list \<Rightarrow> Args \<Rightarrow> nat \<Rightarrow> nat \<Rightarrow> 'T MPS list
    \<Rightarrow> error + 'T MPS list" where
  "sum_loop lib terms args n np newterms =
    (if n < length terms - 1
     then case vec_at terms n of
            Inl e \<Rightarrow> Inl e
          | Inr a \<Rightarrow>
              (case vec_at terms (n + 1) of
                 Inl e \<Rightarrow> Inl e
               | Inr b \<Rightarrow>
                   (case vec_at_assign newterms np (sum2 lib a b args) of
                      Inl e \<Rightarrow> Inl e
                    | Inr newterms1 \<Rightarrow> sum_loop lib terms args (n + 2) (np + 1) newterms1))
     else Inr newterms)"
  by pat_completeness auto
termination
  by (relation "measure (\<lambda>(lib, terms, args, n, np, newterms). length terms - n)") auto

declare sum_loop.simps [simp del]

text \<open>
  One round of \<open>sum\<close> for \<open>Nt > 2\<close>: the vector \<open>newterms\<close> of \<open>nsize\<close>
  default-constructed states, filled by the loop, with the last term copied
  into its last place when \<open>Nt\<close> is odd.
\<close>

definition sum_round ::
  "('T, 'S, 'P, 'I) prims \<Rightarrow> 'T MPS list \<Rightarrow> Args \<Rightarrow> error + 'T MPS list" where
  "sum_round lib terms args =
    (let Nt = length terms;
         nsize = (if Nt mod 2 = 0 then Nt div 2 else (Nt - 1) div 2 + 1)
     in case sum_loop lib terms args 0 0 (replicate nsize (MPS_default lib)) of
          Inl e \<Rightarrow> Inl e
        | Inr newterms \<Rightarrow>
            if Nt mod 2 = 1 then vec_at_assign newterms (nsize - 1) (last terms)
            else Inr newterms)"

lemma length_vec_at_assign: "vec_at_assign xs i v = Inr ys \<Longrightarrow> length ys = length xs"
  by (auto simp: vec_at_assign_def split: if_splits)

lemma length_sum_loop:
  "sum_loop lib terms args n np newterms = Inr ys \<Longrightarrow> length ys = length newterms"
proof (induction lib terms args n np newterms rule: sum_loop.induct)
  case (1 lib terms args n np newterms)
  show ?case
  proof (cases "n < length terms - 1")
    case False
    with "1.prems" show ?thesis by (simp add: sum_loop.simps [of lib terms args n])
  next
    case True
    with "1.prems" obtain a b newterms1 where
      a: "vec_at terms n = Inr a" and b: "vec_at terms (n + 1) = Inr b" and
      c: "vec_at_assign newterms np (sum2 lib a b args) = Inr newterms1" and
      r: "sum_loop lib terms args (n + 2) (np + 1) newterms1 = Inr ys"
      by (auto simp: sum_loop.simps [of lib terms args n] split: sum.splits)
    from "1.IH" [OF True a b c r] length_vec_at_assign [OF c] show ?thesis by simp
  qed
qed

lemma length_sum_round:
  assumes "sum_round lib terms args = Inr ys" and "2 < length terms"
  shows "length ys < length terms"
proof -
  let ?Nt = "length terms"
  let ?nsize = "if ?Nt mod 2 = 0 then ?Nt div 2 else (?Nt - 1) div 2 + 1"
  from assms(1) obtain newterms where
    l: "sum_loop lib terms args 0 0 (replicate ?nsize (MPS_default lib)) = Inr newterms" and
    f: "(if ?Nt mod 2 = 1 then vec_at_assign newterms (?nsize - 1) (last terms) else Inr newterms) = Inr ys"
    by (auto simp: sum_round_def Let_def split: sum.splits)
  from length_sum_loop [OF l] have "length newterms = ?nsize" by simp
  moreover from f have "length ys = length newterms"
    by (auto split: if_splits dest: length_vec_at_assign)
  moreover from assms(2) have "?nsize < ?Nt" by (auto split: if_splits)
  ultimately show ?thesis by simp
qed

text \<open>\<open>sum(terms,args)\<close> on a vector of states.\<close>

function sumv :: "('T, 'S, 'P, 'I) prims \<Rightarrow> 'T MPS list \<Rightarrow> Args \<Rightarrow> error + 'T MPS" where
  "sumv lib terms args =
    (let Nt = length terms in
     if Nt = 2
     then case vec_at terms 0 of
            Inl e \<Rightarrow> Inl e
          | Inr a \<Rightarrow> (case vec_at terms 1 of Inl e \<Rightarrow> Inl e | Inr b \<Rightarrow> Inr (sum2 lib a b args))
     else if Nt = 1 then vec_at terms 0
     else if Nt > 2
     then case sum_round lib terms args of
            Inl e \<Rightarrow> Inl e
          | Inr newterms \<Rightarrow> sumv lib newterms args
     else Inr (MPS_default lib))"
  by pat_completeness auto
termination
  by (relation "measure (\<lambda>(lib, terms, args). length terms)") (auto dest: length_sum_round)

declare sumv.simps [simp del]

text \<open>
  One round in the words of the spec: every adjacent pair is replaced by its
  sum, a last term without a partner is carried over.
\<close>

fun pair_up :: "('T, 'S, 'P, 'I) prims \<Rightarrow> Args \<Rightarrow> 'T MPS list \<Rightarrow> 'T MPS list" where
  "pair_up lib args (a # b # rest) = sum2 lib a b args # pair_up lib args rest"
| "pair_up lib args [a] = [a]"
| "pair_up lib args [] = []"

section \<open>Quantum numbers\<close>

text \<open>
  \<open>itensor/qn.h\<close> defines the storage of a quantum number and its convenience
  constructors inline. \<open>QNVal::set\<close>, the operators on \<open>QN\<close>,
  \<open>isFermionic(QN const&)\<close> and \<open>paritySign\<close> are declared there and defined
  elsewhere. \<open>qn_t\<close> is \<open>int\<close>, modelled by \<open>int\<close>.
\<close>

subsection \<open>QNVal\<close>

text \<open>
  A sector: the members \<open>val_\<close> and \<open>mod_\<close>. \<open>mod == 1\<close> is \<open>Z\<close> addition,
  \<open>mod > 1\<close> is \<open>Z_M\<close> addition, \<open>mod < 0\<close> the same and fermionic, \<open>mod == 0\<close>
  not used.
\<close>

record QNVal =
  qval :: int
  qmod :: int

text \<open>\<open>QNVal()\<close>\<close>

definition QNVal_default :: QNVal where
  "QNVal_default = \<lparr>qval = 0, qmod = 0\<rparr>"

text \<open>\<open>QNVal(qn_t v)\<close>\<close>

definition QNVal_of_val :: "int \<Rightarrow> QNVal" where
  "QNVal_of_val v = \<lparr>qval = v, qmod = 1\<rparr>"

text \<open>
  Modelled from the spec: \<open>QNVal::set\<close> is defined outside of the sources. The
  stored value is the canonical representative for the addition rule of the
  sector: the integer itself for \<open>Z\<close> addition, a representative modulo \<open>|mod|\<close>
  for \<open>|mod| > 1\<close>. The spec leaves open which representative is the canonical
  one, so the reduction \<open>canon\<close> (modulus, then value) is a parameter.
\<close>

definition QNVal_set :: "(int \<Rightarrow> int \<Rightarrow> int) \<Rightarrow> int \<Rightarrow> QNVal \<Rightarrow> QNVal" where
  "QNVal_set canon v qv =
    (if \<bar>qmod qv\<bar> > 1 then qv\<lparr>qval := canon \<bar>qmod qv\<bar> v\<rparr> else qv\<lparr>qval := v\<rparr>)"

text \<open>
  Two reductions: into \<open>[0,m)\<close>, and into the symmetric range \<open>[-m/2,m/2)\<close> that
  the spec proposes.
\<close>

definition canon_nonneg :: "int \<Rightarrow> int \<Rightarrow> int" where
  "canon_nonneg m v = v mod m"

definition canon_sym :: "int \<Rightarrow> int \<Rightarrow> int" where
  "canon_sym m v = (v + m div 2) mod m - m div 2"

text \<open>\<open>QNVal(qn_t v, qn_t m)\<close>\<close>

definition QNVal_val_mod :: "(int \<Rightarrow> int \<Rightarrow> int) \<Rightarrow> int \<Rightarrow> int \<Rightarrow> QNVal" where
  "QNVal_val_mod canon v m = QNVal_set canon v \<lparr>qval = 0, qmod = m\<rparr>"

text \<open>\<open>QNVal(std::initializer_list<qn_t> qv)\<close>\<close>

definition QNVal_init :: "(int \<Rightarrow> int \<Rightarrow> int) \<Rightarrow> int list \<Rightarrow> error + QNVal" where
  "QNVal_init canon qv =
    (if length qv \<noteq> 2 then Inl (Error ''initializer_list arg to QNVal must have two elements'')
     else Inr (QNVal_set canon (qv ! 0) \<lparr>qval = 0, qmod = qv ! 1\<rparr>))"

definition isFermionic_QNVal :: "QNVal \<Rightarrow> bool" where
  "isFermionic_QNVal qv = (qmod qv < 0)"

definition isActive_QNVal :: "QNVal \<Rightarrow> bool" where
  "isActive_QNVal qv = (qmod qv \<noteq> 0)"

subsection \<open>QN\<close>

text \<open>
  The storage of a \<open>QN\<close> is a \<open>std::array\<close> of \<open>QNSize() = 4\<close> sectors:
  \<open>QN v0 v1 v2 v3\<close> is also the constructor \<open>QN(QNVal v0, QNVal v1, QNVal v2, QNVal v3)\<close>.
\<close>

datatype QN = QN QNVal QNVal QNVal QNVal

fun store :: "QN \<Rightarrow> QNVal list" where
  "store (QN v0 v1 v2 v3) = [v0, v1, v2, v3]"

text \<open>\<open>QN()\<close>\<close>

definition QN_default :: QN where
  "QN_default = QN QNVal_default QNVal_default QNVal_default QNVal_default"

text \<open>\<open>QN(std::initializer_list<qn_t> qv)\<close>: \<open>qn_[0] = qv\<close>.\<close>

definition QN_init :: "(int \<Rightarrow> int \<Rightarrow> int) \<Rightarrow> int list \<Rightarrow> error + QN" where
  "QN_init canon qv =
    (case QNVal_init canon qv of
       Inl e \<Rightarrow> Inl e
     | Inr v0 \<Rightarrow> Inr (QN v0 QNVal_default QNVal_default QNVal_default))"

text \<open>
  \<open>QN({a,b},{c,d})\<close>: the constructor from sectors with its first two arguments
  built from initializer lists.
\<close>

definition QN_init2 :: "(int \<Rightarrow> int \<Rightarrow> int) \<Rightarrow> int list \<Rightarrow> int list \<Rightarrow> error + QN" where
  "QN_init2 canon qv0 qv1 =
    (case QNVal_init canon qv0 of
       Inl e \<Rightarrow> Inl e
     | Inr v0 \<Rightarrow>
         (case QNVal_init canon qv1 of
            Inl e \<Rightarrow> Inl e
          | Inr v1 \<Rightarrow> Inr (QN v0 v1 QNVal_default QNVal_default)))"

text \<open>
  \<open>QN::mod(n)\<close>, 1-indexed: \<open>qn_.at(n-1).mod()\<close>. \<open>n\<close> is unsigned, so \<open>n-1\<close>
  wraps for \<open>n = 0\<close> and \<open>at\<close> throws.
\<close>

definition QN_mod :: "QN \<Rightarrow> nat \<Rightarrow> error + int" where
  "QN_mod q n =
    (if n = 0 then Inl (Error ''out_of_range'')
     else case vec_at (store q) (n - 1) of
            Inl e \<Rightarrow> Inl e
          | Inr qv \<Rightarrow> Inr (qmod qv))"

text \<open>\<open>isFermionic(QN const& q, size_t n)\<close>: \<open>q.mod(n) < 0\<close>.\<close>

definition isFermionic_at :: "QN \<Rightarrow> nat \<Rightarrow> error + bool" where
  "isFermionic_at q n = (case QN_mod q n of Inl e \<Rightarrow> Inl e | Inr m \<Rightarrow> Inr (m < 0))"

text \<open>
  Modelled from the spec: \<open>isFermionic(QN const&)\<close> is defined outside of the
  sources; it is true if any sector is fermionic (so says the header as well).
\<close>

definition isFermionic :: "QN \<Rightarrow> bool" where
  "isFermionic q = list_ex isFermionic_QNVal (store q)"

text \<open>
  Modelled from the spec: \<open>paritySign\<close> is defined outside of the sources; it is
  the product over the fermionic sectors of \<open>(-1)^value\<close>. A value and its
  absolute value have the same parity, so the exponent is the absolute value.
  (The header says: -1 if any sector is fermionic and of odd parity, otherwise
  +1. The two readings agree unless two or more fermionic sectors are odd.)
\<close>

definition paritySign :: "QN \<Rightarrow> int" where
  "paritySign q =
    prod_list (map (\<lambda>qv. (- 1) ^ nat \<bar>qval qv\<bar>) (filter isFermionic_QNVal (store q)))"

text \<open>
  Modelled from the spec: the addition of quantum numbers is defined outside of
  the sources. It is componentwise, each sector reduced to its canonical
  representative; sectors whose \<open>mod\<close> differ between the operands fail.
\<close>

definition QNVal_plus :: "(int \<Rightarrow> int \<Rightarrow> int) \<Rightarrow> QNVal \<Rightarrow> QNVal \<Rightarrow> error + QNVal" where
  "QNVal_plus canon qva qvb =
    (if qmod qva \<noteq> qmod qvb then Inl (Error ''mismatched mod'')
     else Inr (QNVal_set canon (qval qva + qval qvb) qva))"

fun QN_plus :: "(int \<Rightarrow> int \<Rightarrow> int) \<Rightarrow> QN \<Rightarrow> QN \<Rightarrow> error + QN" where
  "QN_plus canon (QN a0 a1 a2 a3) (QN b0 b1 b2 b3) =
    (case QNVal_plus canon a0 b0 of Inl e \<Rightarrow> Inl e | Inr c0 \<Rightarrow>
    (case QNVal_plus canon a1 b1 of Inl e \<Rightarrow> Inl e | Inr c1 \<Rightarrow>
    (case QNVal_plus canon a2 b2 of Inl e \<Rightarrow> Inl e | Inr c2 \<Rightarrow>
    (case QNVal_plus canon a3 b3 of Inl e \<Rightarrow> Inl e | Inr c3 \<Rightarrow>
       Inr (QN c0 c1 c2 c3)))))"

text \<open>The sign a single sector contributes to \<open>paritySign\<close>.\<close>

definition sector_sign :: "QNVal \<Rightarrow> int" where
  "sector_sign qv = (if isFermionic_QNVal qv then (- 1) ^ nat \<bar>qval qv\<bar> else 1)"

subsection \<open>Convenience constructors\<close>

definition spin :: "(int \<Rightarrow> int \<Rightarrow> int) \<Rightarrow> int \<Rightarrow> error + QN" where
  "spin canon Sz = QN_init canon [Sz, 1]"

definition boson :: "(int \<Rightarrow> int \<Rightarrow> int) \<Rightarrow> int \<Rightarrow> error + QN" where
  "boson canon Nb = QN_init canon [Nb, 1]"

definition spinboson :: "(int \<Rightarrow> int \<Rightarrow> int) \<Rightarrow> int \<Rightarrow> int \<Rightarrow> error + QN" where
  "spinboson canon Sz Nb = QN_init2 canon [Sz, 1] [Nb, 1]"

definition fermion :: "(int \<Rightarrow> int \<Rightarrow> int) \<Rightarrow> int \<Rightarrow> error + QN" where
  "fermion canon Nf = QN_init canon [Nf, - 1]"

definition fparity :: "(int \<Rightarrow> int \<Rightarrow> int) \<Rightarrow> int \<Rightarrow> error + QN" where
  "fparity canon Pf = QN_init canon [Pf, - 2]"

definition electron :: "(int \<Rightarrow> int \<Rightarrow> int) \<Rightarrow> int \<Rightarrow> int \<Rightarrow> error + QN" where
  "electron canon Sz Nf = QN_init2 canon [Sz, 1] [Nf, - 1]"

definition elparity :: "(int \<Rightarrow> int \<Rightarrow> int) \<Rightarrow> int \<Rightarrow> int \<Rightarrow> error + QN" where
  "elparity canon Sz Pf = QN_init2 canon [Sz, 1] [Pf, - 2]"

definition clock :: "(int \<Rightarrow> int \<Rightarrow> int) \<Rightarrow> int \<Rightarrow> int \<Rightarrow> error + QN" where
  "clock canon n N = QN_init canon [n, N]"

section \<open>A tensor library of scalars\<close>

text \<open>
  The smallest instance of the tensor library, used to run the functions on
  concrete states: every tensor is a complex number (a tensor without indices),
  there is no link index, a spectrum is the list of the weights kept.
\<close>

definition scalar_MPS_default :: "complex MPS" where
  "scalar_MPS_default = \<lparr>mpsN = 0, mpsA = (\<lambda>i. 0), l_orth_lim = 0, r_orth_lim = 0, atb = 1\<rparr>"

definition scalar_plusEq :: "complex MPS \<Rightarrow> complex MPS \<Rightarrow> Args \<Rightarrow> complex MPS" where
  "scalar_plusEq L R args = L\<lparr>mpsA := (\<lambda>i. mpsA L i + mpsA R i)\<rparr>"

definition scalar_lib :: "(complex, real list, unit, bool) prims" where
  "scalar_lib =
    \<lparr>MIN_CUT = 1 / 10 ^ 15,
     one_over = (\<lambda>x. 1 / x),
     ITensor_default = 0,
     LocalOp_default = (),
     MPS_default = scalar_MPS_default,
     svd = (\<lambda>AA U D V args. ([cmod AA], sgn AA, of_real (cmod AA), 1)),
     denmatDecomp = (\<lambda>AA A B dir PH args.
        if dir = Fromleft then ([(cmod AA) ^ 2], sgn AA, of_real (cmod AA))
        else ([(cmod AA) ^ 2], of_real (cmod AA), sgn AA)),
     norm_ITensor = cmod,
     mult = (\<lambda>x y. x * y),
     scale = (\<lambda>x r. x * of_real r),
     dag = cnj,
     prime_ind = (\<lambda>x i. x),
     prime_Link = (\<lambda>x. x),
     noprime = (\<lambda>x. x),
     commonIndex_Link = (\<lambda>x y. False),
     index_bool = (\<lambda>i. i),
     cplx = (\<lambda>x. x),
     plusEq = scalar_plusEq\<rparr>"

text \<open>A state of four sites with its orthogonality centre at site 2.\<close>

definition psi4 :: "complex MPS" where
  "psi4 = \<lparr>mpsN = 4, mpsA = (\<lambda>i. if 1 \<le> i \<and> i \<le> 4 then 1 else 0),
           l_orth_lim = 1, r_orth_lim = 3, atb = 1\<rparr>"

definition no_args :: Args where
  "no_args = \<lparr>realArgs = Map.empty, boolArgs = Map.empty\<rparr>"

section \<open>Properties of the bond update\<close>

lemmas scalar_eval =
  getReal_def getBool_def no_args_def psi4_def scalar_lib_def

lemmas svdBond_unfold =
  svdBond_def svdBond_decomp_def svdBond_svd_def svdBond_denmat_def svdBond_lims_def setBond_def
  leftLim_def rightLim_def Let_def double_1E_12_def double_1E_16_def

lemma MIN_CUT_scalar_lib: "MIN_CUT scalar_lib = 1 / 10 ^ 15"
  by (simp add: scalar_lib_def)

lemma leftLim_setBond: "leftLim (setBond b psi) = leftLim psi"
  by (simp add: setBond_def leftLim_def)

lemma rightLim_setBond: "rightLim (setBond b psi) = rightLim psi"
  by (simp add: setBond_def rightLim_def)

lemma svdBond_svd_frame:
  assumes "svdBond_svd lib b AA dir args psi = (res, psi1)"
  shows "l_orth_lim psi1 = l_orth_lim psi" and "r_orth_lim psi1 = r_orth_lim psi"
    and "mpsN psi1 = mpsN psi" and "j \<noteq> b \<Longrightarrow> j \<noteq> b + 1 \<Longrightarrow> mpsA psi1 j = mpsA psi j"
  using assms by (auto simp: svdBond_svd_def Let_def split: prod.splits)

lemma svdBond_denmat_frame:
  assumes "svdBond_denmat lib b AA dir PH args psi = (res, psi1)"
  shows "l_orth_lim psi1 = l_orth_lim psi" and "r_orth_lim psi1 = r_orth_lim psi"
    and "mpsN psi1 = mpsN psi" and "j \<noteq> b \<Longrightarrow> j \<noteq> b + 1 \<Longrightarrow> mpsA psi1 j = mpsA psi j"
  using assms by (auto simp: svdBond_denmat_def Let_def split: prod.splits if_splits)

lemma svdBond_decomp_frame:
  assumes "svdBond_decomp lib b AA dir PH args psi = (res, psi1)"
  shows "l_orth_lim psi1 = l_orth_lim psi" and "r_orth_lim psi1 = r_orth_lim psi"
    and "mpsN psi1 = mpsN psi" and "j \<noteq> b \<Longrightarrow> j \<noteq> b + 1 \<Longrightarrow> mpsA psi1 j = mpsA psi j"
proof -
  from assms have "svdBond_svd lib b AA dir args psi = (res, psi1) \<or>
      svdBond_denmat lib b AA dir PH args psi = (res, psi1)"
    by (simp add: svdBond_decomp_def Let_def split: if_splits)
  then show "l_orth_lim psi1 = l_orth_lim psi" and "r_orth_lim psi1 = r_orth_lim psi"
    and "mpsN psi1 = mpsN psi" and "j \<noteq> b \<Longrightarrow> j \<noteq> b + 1 \<Longrightarrow> mpsA psi1 j = mpsA psi j"
    using svdBond_svd_frame [of lib b AA dir args psi res psi1]
      svdBond_denmat_frame [of lib b AA dir PH args psi res psi1]
    by auto
qed

lemma svdBond_lims_frame:
  "mpsN (svdBond_lims b dir psi) = mpsN psi" "mpsA (svdBond_lims b dir psi) = mpsA psi"
  by (simp_all add: svdBond_lims_def Let_def)

lemma svdBond_passes:
  assumes "\<not> (dir = Fromleft \<and> b - 1 > leftLim psi)"
      and "\<not> (dir = Fromright \<and> b + 2 < rightLim psi)"
  shows "svdBond lib b AA dir PH args psi =
    (Inr (fst (svdBond_decomp lib b AA dir PH args (setBond b psi))),
     svdBond_lims b dir (snd (svdBond_decomp lib b AA dir PH args (setBond b psi))), [])"
  using assms by (simp add: svdBond_def Let_def leftLim_setBond rightLim_setBond split: prod.splits)

lemma svdBond_Inr:
  assumes "svdBond lib b AA dir PH args psi = (Inr res, psi', out)"
  shows "\<not> (dir = Fromleft \<and> b - 1 > leftLim psi)" "\<not> (dir = Fromright \<and> b + 2 < rightLim psi)"
  using assms by (auto simp: svdBond_def Let_def leftLim_setBond rightLim_setBond split: if_splits)

text \<open>
  C1. A call of \<open>svdBond\<close> that passes the two checks leaves the window so:
  from the left, \<open>leftLim\<close> is \<open>b\<close> and \<open>rightLim\<close> is the larger of its old value
  and \<open>b+2\<close>; from the right, \<open>rightLim\<close> is \<open>b+1\<close> and \<open>leftLim\<close> is the smaller
  of its old value and \<open>b-1\<close>.
\<close>

theorem svdBond_window:
  assumes call: "svdBond lib b AA dir PH args psi = (r, psi', out)"
      and left_ok: "\<not> (dir = Fromleft \<and> b - 1 > leftLim psi)"
      and right_ok: "\<not> (dir = Fromright \<and> b + 2 < rightLim psi)"
  shows "(dir = Fromleft \<longrightarrow> leftLim psi' = b \<and> rightLim psi' = max (rightLim psi) (b + 2)) \<and>
         (dir = Fromright \<longrightarrow> rightLim psi' = b + 1 \<and> leftLim psi' = min (leftLim psi) (b - 1))"
proof -
  obtain res psi1 where d: "svdBond_decomp lib b AA dir PH args (setBond b psi) = (res, psi1)"
    by (cases "svdBond_decomp lib b AA dir PH args (setBond b psi)")
  have lims: "l_orth_lim psi1 = l_orth_lim psi" "r_orth_lim psi1 = r_orth_lim psi"
    using svdBond_decomp_frame(1,2) [OF d] by (simp_all add: setBond_def)
  from call svdBond_passes [OF left_ok right_ok, of lib AA PH args] d
  have psi': "psi' = svdBond_lims b dir psi1" by simp
  show ?thesis
    using lims by (cases dir) (auto simp: psi' svdBond_lims_def leftLim_def rightLim_def Let_def)
qed

theorem svdBond_window_witness:
  "leftLim (fst (snd (svdBond scalar_lib 2 1 Fromleft () no_args psi4))) = 2 \<and>
   rightLim (fst (snd (svdBond scalar_lib 2 1 Fromleft () no_args psi4))) = 4 \<and>
   rightLim (fst (snd (svdBond scalar_lib 3 1 Fromright () no_args psi4))) = 4 \<and>
   leftLim (fst (snd (svdBond scalar_lib 3 1 Fromright () no_args psi4))) = 1"
proof -
  have l: "svdBond scalar_lib 2 1 Fromleft () no_args psi4 =
      (fst (svdBond scalar_lib 2 1 Fromleft () no_args psi4),
       fst (snd (svdBond scalar_lib 2 1 Fromleft () no_args psi4)),
       snd (snd (svdBond scalar_lib 2 1 Fromleft () no_args psi4)))"
    by simp
  have r: "svdBond scalar_lib 3 1 Fromright () no_args psi4 =
      (fst (svdBond scalar_lib 3 1 Fromright () no_args psi4),
       fst (snd (svdBond scalar_lib 3 1 Fromright () no_args psi4)),
       snd (snd (svdBond scalar_lib 3 1 Fromright () no_args psi4)))"
    by simp
  have p: "leftLim psi4 = 1" "rightLim psi4 = 3"
    by (simp_all add: leftLim_def rightLim_def psi4_def)
  from svdBond_window [OF l] svdBond_window [OF r] show ?thesis
    by (simp add: p)
qed

text \<open>
  C2. \<open>svdBond\<close> fails exactly when the check of its direction fails: from the
  left when \<open>b - 1 > leftLim\<close>, from the right when \<open>b + 2 < rightLim\<close>, with the
  message of that check. Otherwise it returns the spectrum of the decomposition,
  run on the state in which the bond is recorded.
\<close>

theorem svdBond_fails_iff:
  "(isl (fst (svdBond lib b AA Fromleft PH args psi)) \<longleftrightarrow> b - 1 > leftLim psi) \<and>
   (isl (fst (svdBond lib b AA Fromright PH args psi)) \<longleftrightarrow> b + 2 < rightLim psi) \<and>
   (b - 1 > leftLim psi \<longrightarrow>
      fst (svdBond lib b AA Fromleft PH args psi) = Inl (Error ''b-1 > l_orth_lim_'')) \<and>
   (b + 2 < rightLim psi \<longrightarrow>
      fst (svdBond lib b AA Fromright PH args psi) = Inl (Error ''b+2 < r_orth_lim_'')) \<and>
   (\<not> b - 1 > leftLim psi \<longrightarrow>
      svdBond lib b AA Fromleft PH args psi =
        (Inr (fst (svdBond_decomp lib b AA Fromleft PH args (setBond b psi))),
         svdBond_lims b Fromleft (snd (svdBond_decomp lib b AA Fromleft PH args (setBond b psi))), [])) \<and>
   (\<not> b + 2 < rightLim psi \<longrightarrow>
      svdBond lib b AA Fromright PH args psi =
        (Inr (fst (svdBond_decomp lib b AA Fromright PH args (setBond b psi))),
         svdBond_lims b Fromright (snd (svdBond_decomp lib b AA Fromright PH args (setBond b psi))), []))"
proof -
  have l: "b - 1 > leftLim psi \<Longrightarrow>
      fst (svdBond lib b AA Fromleft PH args psi) = Inl (Error ''b-1 > l_orth_lim_'')"
    by (simp add: svdBond_def Let_def leftLim_setBond)
  have r: "b + 2 < rightLim psi \<Longrightarrow>
      fst (svdBond lib b AA Fromright PH args psi) = Inl (Error ''b+2 < r_orth_lim_'')"
    by (simp add: svdBond_def Let_def rightLim_setBond)
  have l': "\<not> b - 1 > leftLim psi \<Longrightarrow>
      svdBond lib b AA Fromleft PH args psi =
        (Inr (fst (svdBond_decomp lib b AA Fromleft PH args (setBond b psi))),
         svdBond_lims b Fromleft (snd (svdBond_decomp lib b AA Fromleft PH args (setBond b psi))), [])"
    by (rule svdBond_passes) simp_all
  have r': "\<not> b + 2 < rightLim psi \<Longrightarrow>
      svdBond lib b AA Fromright PH args psi =
        (Inr (fst (svdBond_decomp lib b AA Fromright PH args (setBond b psi))),
         svdBond_lims b Fromright (snd (svdBond_decomp lib b AA Fromright PH args (setBond b psi))), [])"
    by (rule svdBond_passes) simp_all
  have "isl (fst (svdBond lib b AA Fromleft PH args psi)) \<longleftrightarrow> b - 1 > leftLim psi"
    using l l' by (cases "b - 1 > leftLim psi") simp_all
  moreover have "isl (fst (svdBond lib b AA Fromright PH args psi)) \<longleftrightarrow> b + 2 < rightLim psi"
    using r r' by (cases "b + 2 < rightLim psi") simp_all
  ultimately show ?thesis using l r l' r' by blast
qed

theorem svdBond_fails_iff_witness:
  "isl (fst (svdBond scalar_lib 3 1 Fromleft () no_args psi4)) \<and>
   fst (svdBond scalar_lib 3 1 Fromleft () no_args psi4) = Inl (Error ''b-1 > l_orth_lim_'') \<and>
   isl (fst (svdBond scalar_lib 0 1 Fromright () no_args psi4)) \<and>
   fst (svdBond scalar_lib 0 1 Fromright () no_args psi4) = Inl (Error ''b+2 < r_orth_lim_'') \<and>
   \<not> isl (fst (svdBond scalar_lib 2 1 Fromleft () no_args psi4)) \<and>
   \<not> isl (fst (svdBond scalar_lib 2 1 Fromright () no_args psi4))"
proof -
  have p: "leftLim psi4 = 1" "rightLim psi4 = 3"
    by (simp_all add: leftLim_def rightLim_def psi4_def)
  from svdBond_fails_iff [of scalar_lib 3 1 "()" no_args psi4]
    svdBond_fails_iff [of scalar_lib 0 1 "()" no_args psi4]
    svdBond_fails_iff [of scalar_lib 2 1 "()" no_args psi4]
  show ?thesis by (simp add: p)
qed

lemma double_1E_12_near:
  "double_1E_12 < 1 / 10 ^ 12 \<and> 1 / 10 ^ 12 - double_1E_12 < 1 / 10 ^ 28"
  by (simp add: double_1E_12_def)

lemma double_1E_16_near:
  "double_1E_16 < 1 / 10 ^ 16 \<and> 1 / 10 ^ 16 - double_1E_16 < 1 / 10 ^ 32"
  by (simp add: double_1E_16_def)




text \<open>
  In the library of scalars a scaled zero tensor has norm 0, whatever the
  factor.
\<close>

lemma scalar_scale_zero: "norm_ITensor scalar_lib (scale scalar_lib 0 r) = 0"
  by (simp add: scalar_lib_def)




text \<open>
  C9. A successful call of \<open>svdBond\<close> leaves the number of sites and every site
  tensor at a position other than \<open>b\<close> and \<open>b+1\<close> as they were.
\<close>

theorem svdBond_frame:
  assumes "svdBond lib b AA dir PH args psi = (Inr res, psi', out)"
  shows "N_of psi' = N_of psi \<and> (\<forall>j. j \<noteq> b \<and> j \<noteq> b + 1 \<longrightarrow> A_of psi' j = A_of psi j)"
proof -
  obtain res1 psi1 where d: "svdBond_decomp lib b AA dir PH args (setBond b psi) = (res1, psi1)"
    by (cases "svdBond_decomp lib b AA dir PH args (setBond b psi)")
  from assms svdBond_passes [OF svdBond_Inr [OF assms], of lib AA PH args] d
  have psi': "psi' = svdBond_lims b dir psi1" by simp
  have "mpsN psi1 = mpsN psi"
    using svdBond_decomp_frame(3) [OF d] by (simp add: setBond_def)
  moreover have "mpsA psi1 j = mpsA psi j" if "j \<noteq> b" "j \<noteq> b + 1" for j
    using svdBond_decomp_frame(4) [OF d that] by (simp add: setBond_def)
  ultimately show ?thesis
    by (simp add: psi' N_of_def A_of_def svdBond_lims_frame)
qed

theorem svdBond_frame_witness:
  "fst (svdBond scalar_lib 2 2 Fromleft () no_args psi4) = Inr [2] \<and>
   N_of (fst (snd (svdBond scalar_lib 2 2 Fromleft () no_args psi4))) = 4 \<and>
   A_of (fst (snd (svdBond scalar_lib 2 2 Fromleft () no_args psi4))) 1 = A_of psi4 1 \<and>
   A_of (fst (snd (svdBond scalar_lib 2 2 Fromleft () no_args psi4))) 4 = A_of psi4 4 \<and>
   A_of (fst (snd (svdBond scalar_lib 2 2 Fromleft () no_args psi4))) 3 \<noteq> A_of psi4 3"
proof -
  have e: "svdBond scalar_lib 2 2 Fromleft () no_args psi4 =
      (Inr [2],
       \<lparr>mpsN = 4, mpsA = (mpsA psi4)(2 := 1, 3 := 2), l_orth_lim = 2, r_orth_lim = 4, atb = 2\<rparr>,
       [])"
    by (simp add: svdBond_unfold scalar_eval sgn_eq)
  have p: "mpsA psi4 1 = 1" "mpsA psi4 3 = 1" "mpsA psi4 4 = 1"
    by (simp_all add: psi4_def)
  from svdBond_frame [OF e] show ?thesis
    by (simp add: e N_of_def A_of_def p)
qed

section \<open>Properties of the orthogonality centre\<close>

text \<open>
  C4. \<open>isOrtho\<close> holds exactly when \<open>leftLim + 1 = rightLim - 1\<close>. Then
  \<open>orthoCenter\<close> returns \<open>leftLim + 1\<close> and \<open>norm\<close> returns the norm of the one
  tensor \<open>A(leftLim + 1)\<close>; otherwise both abort with their error.
\<close>

theorem orthoCenter_norm:
  "(isOrtho psi \<longleftrightarrow> leftLim psi + 1 = rightLim psi - 1) \<and>
   (leftLim psi + 1 = rightLim psi - 1 \<longrightarrow>
      orthoCenter psi = Inr (leftLim psi + 1) \<and>
      norm_MPS lib psi = Inr (norm_ITensor lib (A_of psi (leftLim psi + 1)))) \<and>
   (leftLim psi + 1 \<noteq> rightLim psi - 1 \<longrightarrow>
      orthoCenter psi = Inl (Error ''orthogonality center not well defined.'') \<and>
      norm_MPS lib psi = Inl (Error
        ''MPS must have well-defined ortho center to compute norm; call .position(j) or .orthogonalize() to set ortho center''))"
  by (simp add: isOrtho_def orthoCenter_def norm_MPS_def)

theorem orthoCenter_norm_witness:
  "isOrtho psi4 \<and> orthoCenter psi4 = Inr 2 \<and> norm_MPS scalar_lib psi4 = Inr 1 \<and>
   \<not> isOrtho (psi4\<lparr>r_orth_lim := 4\<rparr>) \<and>
   isl (orthoCenter (psi4\<lparr>r_orth_lim := 4\<rparr>)) \<and>
   isl (norm_MPS scalar_lib (psi4\<lparr>r_orth_lim := 4\<rparr>))"
proof -
  have p: "leftLim psi4 = 1" "rightLim psi4 = 3" "A_of psi4 2 = 1"
    "leftLim (psi4\<lparr>r_orth_lim := 4\<rparr>) = 1" "rightLim (psi4\<lparr>r_orth_lim := 4\<rparr>) = 4"
    by (simp_all add: leftLim_def rightLim_def A_of_def psi4_def)
  from orthoCenter_norm [of psi4 scalar_lib]
    orthoCenter_norm [of "psi4\<lparr>r_orth_lim := 4\<rparr>" scalar_lib]
  show ?thesis by (simp add: p scalar_lib_def)
qed

text \<open>
  C10. \<open>applyGate\<close> aborts with the error of \<open>orthoCenter\<close>, the state untouched,
  when \<open>leftLim + 1 \<noteq> rightLim - 1\<close>. Otherwise, with \<open>c\<close> the centre, it calls
  \<open>svdBond\<close> on the bond \<open>c\<close> with \<open>A(c) * A(c+1) * gate\<close> without its primes, from
  the left unless the option \<open>Fromleft\<close> is set to false; the call passes the
  checks of \<open>svdBond\<close>.
\<close>

theorem applyGate_spec:
  "(\<not> isOrtho psi \<longrightarrow>
      applyGate lib gate psi args =
        (Inl (Error ''orthogonality center not well defined.''), psi, [])) \<and>
   (isOrtho psi \<longrightarrow>
      fst (applyGate lib gate psi args) = Inr () \<and>
      snd (applyGate lib gate psi args) =
        snd (svdBond lib (leftLim psi + 1)
               (noprime lib (mult lib (mult lib (A_of psi (leftLim psi + 1))
                                                (A_of psi (leftLim psi + 1 + 1))) gate))
               (if boolArgs args ''Fromleft'' = Some False then Fromright else Fromleft)
               (LocalOp_default lib) args psi))"
proof -
  have dflt: "getBool args ''Fromleft'' True \<longleftrightarrow> boolArgs args ''Fromleft'' \<noteq> Some False"
    by (auto simp: getBool_def split: option.splits)
  have bad: "applyGate lib gate psi args =
      (Inl (Error ''orthogonality center not well defined.''), psi, [])" if "\<not> isOrtho psi"
    using that by (simp add: applyGate_def orthoCenter_def)
  have good: "fst (applyGate lib gate psi args) = Inr () \<and>
      snd (applyGate lib gate psi args) =
        snd (svdBond lib (leftLim psi + 1)
               (noprime lib (mult lib (mult lib (A_of psi (leftLim psi + 1))
                                                (A_of psi (leftLim psi + 1 + 1))) gate))
               (if boolArgs args ''Fromleft'' = Some False then Fromright else Fromleft)
               (LocalOp_default lib) args psi)" if o: "isOrtho psi"
  proof -
    define c where "c = leftLim psi + 1"
    define AA where "AA = noprime lib (mult lib (mult lib (A_of psi c) (A_of psi (c + 1))) gate)"
    define dir where "dir = (if boolArgs args ''Fromleft'' = Some False then Fromright else Fromleft)"
    from o have oc: "orthoCenter psi = Inr c" by (simp add: orthoCenter_def c_def)
    from o have l: "\<not> (dir = Fromleft \<and> c - 1 > leftLim psi)"
      and r: "\<not> (dir = Fromright \<and> c + 2 < rightLim psi)"
      by (simp_all add: isOrtho_def c_def)
    note pass = svdBond_passes [OF l r, where lib = lib and AA = AA and PH = "LocalOp_default lib"
        and args = args]
    have "applyGate lib gate psi args =
        (case svdBond lib c AA dir (LocalOp_default lib) args psi of
           (Inl e, psi1, out) \<Rightarrow> (Inl e, psi1, out)
         | (Inr res, psi1, out) \<Rightarrow> (Inr (), psi1, out))"
      by (simp add: applyGate_def oc svdBond_noPH_def dflt AA_def dir_def)
    then have "fst (applyGate lib gate psi args) = Inr () \<and>
        snd (applyGate lib gate psi args) = snd (svdBond lib c AA dir (LocalOp_default lib) args psi)"
      by (simp add: pass)
    then show ?thesis unfolding c_def AA_def dir_def c_def .
  qed
  from bad good show ?thesis by blast
qed

theorem applyGate_spec_witness:
  "applyGate scalar_lib 3 (psi4\<lparr>r_orth_lim := 4\<rparr>) no_args =
     (Inl (Error ''orthogonality center not well defined.''), psi4\<lparr>r_orth_lim := 4\<rparr>, []) \<and>
   fst (applyGate scalar_lib 3 psi4 no_args) = Inr () \<and>
   A_of (fst (snd (applyGate scalar_lib 3 psi4 no_args))) 3 = 3 \<and>
   leftLim (fst (snd (applyGate scalar_lib 3 psi4 no_args))) = 2 \<and>
   rightLim (fst (snd (applyGate scalar_lib 3 psi4 no_args))) = 4"
proof -
  have o: "isOrtho psi4" "\<not> isOrtho (psi4\<lparr>r_orth_lim := 4\<rparr>)"
    by (simp_all add: isOrtho_def leftLim_def rightLim_def psi4_def)
  have c: "leftLim psi4 + 1 = 2"
    by (simp add: leftLim_def psi4_def)
  have AA: "noprime scalar_lib (mult scalar_lib (mult scalar_lib (A_of psi4 2) (A_of psi4 (2 + 1))) 3)
      = 3"
    by (simp add: scalar_lib_def A_of_def psi4_def)
  have d: "boolArgs no_args ''Fromleft'' \<noteq> Some False" "LocalOp_default scalar_lib = ()"
    by (simp_all add: no_args_def scalar_lib_def)
  have e: "svdBond scalar_lib 2 3 Fromleft () no_args psi4 =
      (Inr [3],
       \<lparr>mpsN = 4, mpsA = (mpsA psi4)(2 := 1, 3 := 3), l_orth_lim = 2, r_orth_lim = 4, atb = 2\<rparr>,
       [])"
    by (simp add: svdBond_unfold scalar_eval sgn_eq)
  have bad: "applyGate scalar_lib 3 (psi4\<lparr>r_orth_lim := 4\<rparr>) no_args =
      (Inl (Error ''orthogonality center not well defined.''), psi4\<lparr>r_orth_lim := 4\<rparr>, [])"
    using applyGate_spec [of "psi4\<lparr>r_orth_lim := 4\<rparr>" scalar_lib 3 no_args] o(2) by blast
  have "fst (applyGate scalar_lib 3 psi4 no_args) = Inr () \<and>
      snd (applyGate scalar_lib 3 psi4 no_args) =
        snd (svdBond scalar_lib 2 3 Fromleft () no_args psi4)"
    using applyGate_spec [of psi4 scalar_lib 3 no_args] o(1)
    by (simp only: c AA d if_False simp_thms)
  with bad show ?thesis
    by (simp add: e A_of_def leftLim_def rightLim_def)
qed

section \<open>Properties of the overlap\<close>

lemma overlapC_Inl:
  "N_of psi \<noteq> N_of phi \<Longrightarrow> overlapC lib psi phi = Inl (Error ''overlap: mismatched N'')"
  by (simp add: overlapC_def)

lemma overlapC_Inr:
  "N_of psi = N_of phi \<Longrightarrow> \<exists>z. overlapC lib psi phi = Inr z"
  by (simp add: overlapC_def Let_def)

text \<open>
  C5. The overlap fails exactly when the two states differ in \<open>N\<close>. For equal
  \<open>N\<close> the real overlap returns the real part of the complex overlap, and
  prints the warning, without failing, exactly when the absolute imaginary part
  exceeds \<open>1E-12\<close> times the absolute real part.
\<close>

theorem overlap_spec:
  "(isl (overlapC lib psi phi) \<longleftrightarrow> N_of psi \<noteq> N_of phi) \<and>
   (isl (fst (overlap lib psi phi)) \<longleftrightarrow> N_of psi \<noteq> N_of phi) \<and>
   (N_of psi \<noteq> N_of phi \<longrightarrow>
      overlap lib psi phi = (Inl (Error ''overlap: mismatched N''), [])) \<and>
   (N_of psi = N_of phi \<longrightarrow>
      (\<exists>z. overlapC lib psi phi = Inr z \<and>
           overlap lib psi phi =
             (Inr (Re z),
              if \<bar>Im z\<bar> > 1 / 10 ^ 12 * \<bar>Re z\<bar>
              then [Printfln_real ''Real overlap: WARNING, dropping non-zero imaginary part (=%.5E) of expectation value.'' [Im z]]
              else [])))"
proof (cases "N_of psi = N_of phi")
  case True
  from overlapC_Inr [OF True] obtain z where z: "overlapC lib psi phi = Inr z" ..
  have "overlap lib psi phi =
      (Inr (Re z),
       if \<bar>Im z\<bar> > 1 / 10 ^ 12 * \<bar>Re z\<bar>
       then [Printfln_real ''Real overlap: WARNING, dropping non-zero imaginary part (=%.5E) of expectation value.'' [Im z]]
       else [])"
    by (simp add: overlap_def overlap_re_im_def z)
  with True z show ?thesis by simp
next
  case False
  from overlapC_Inl [OF False]
  have "overlapC lib psi phi = Inl (Error ''overlap: mismatched N'')" .
  moreover from this have "overlap lib psi phi = (Inl (Error ''overlap: mismatched N''), [])"
    by (simp add: overlap_def overlap_re_im_def)
  ultimately show ?thesis using False by simp
qed

text \<open>Two states of one site, and psi4 against itself and against a shorter state.\<close>

theorem overlap_spec_witness:
  "overlap scalar_lib (psi4\<lparr>mpsN := 1, mpsA := (\<lambda>i. \<i>)\<rparr>) (psi4\<lparr>mpsN := 1\<rparr>) =
     (Inr 0, [Printfln_real ''Real overlap: WARNING, dropping non-zero imaginary part (=%.5E) of expectation value.'' [- 1]]) \<and>
   overlap scalar_lib psi4 psi4 = (Inr 1, []) \<and>
   overlap scalar_lib psi4 (psi4\<lparr>mpsN := 3\<rparr>) = (Inl (Error ''overlap: mismatched N''), [])"
proof -
  let ?psi = "psi4\<lparr>mpsN := 1, mpsA := (\<lambda>i. \<i>)\<rparr>"
  let ?phi = "psi4\<lparr>mpsN := 1\<rparr>"
  have n: "N_of ?psi = N_of ?phi" "N_of psi4 = N_of psi4" "N_of psi4 \<noteq> N_of (psi4\<lparr>mpsN := 3\<rparr>)"
    by (simp_all add: N_of_def psi4_def)
  have z1: "overlapC scalar_lib ?psi ?phi = Inr (- \<i>)"
    by (simp add: overlapC_def linkInd_def N_of_def A_of_def psi4_def scalar_lib_def)
  have z2: "overlapC scalar_lib psi4 psi4 = Inr 1"
    by (simp add: overlapC_def overlapC_loop.simps linkInd_def N_of_def A_of_def psi4_def
        scalar_lib_def)
  let ?warn = "Printfln_real ''Real overlap: WARNING, dropping non-zero imaginary part (=%.5E) of expectation value.''"
  from overlap_spec [of scalar_lib ?psi ?phi] n(1) obtain z where
    "overlapC scalar_lib ?psi ?phi = Inr z" and
    "overlap scalar_lib ?psi ?phi =
      (Inr (Re z), if \<bar>Im z\<bar> > 1 / 10 ^ 12 * \<bar>Re z\<bar> then [?warn [Im z]] else [])"
    by blast
  with z1 have a: "overlap scalar_lib ?psi ?phi = (Inr 0, [?warn [- 1]])"
    by simp
  from overlap_spec [of scalar_lib psi4 psi4] obtain z where
    "overlapC scalar_lib psi4 psi4 = Inr z" and
    "overlap scalar_lib psi4 psi4 =
      (Inr (Re z), if \<bar>Im z\<bar> > 1 / 10 ^ 12 * \<bar>Re z\<bar> then [?warn [Im z]] else [])"
    by blast
  with z2 have b: "overlap scalar_lib psi4 psi4 = (Inr 1, [])"
    by simp
  from overlap_spec [of scalar_lib psi4 "psi4\<lparr>mpsN := 3\<rparr>"] n(3)
  have c: "overlap scalar_lib psi4 (psi4\<lparr>mpsN := 3\<rparr>) = (Inl (Error ''overlap: mismatched N''), [])"
    by blast
  from a b c show ?thesis by simp
qed

section \<open>Properties of the sum\<close>

lemma length_pair_up: "length (pair_up lib args xs) = (length xs + 1) div 2"
  by (induction lib args xs rule: pair_up.induct) simp_all

lemma nth_pair_up:
  "k < (length xs + 1) div 2 \<Longrightarrow>
    pair_up lib args xs ! k =
      (if 2 * k + 1 < length xs then sum2 lib (xs ! (2 * k)) (xs ! (2 * k + 1)) args
       else xs ! (2 * k))"
proof (induction lib args xs arbitrary: k rule: pair_up.induct)
  case (1 lib args a b rest)
  show ?case
  proof (cases k)
    case 0
    then show ?thesis by simp
  next
    case (Suc j)
    with "1.prems" have "j < (length rest + 1) div 2" by simp
    from "1.IH" [OF this] Suc show ?thesis by simp
  qed
next
  case (2 lib args a)
  then show ?case by simp
next
  case (3 lib args)
  then show ?case by simp
qed

lemma sum_loop_nth:
  assumes "n = 2 * np" and "length newterms = (length terms + 1) div 2"
  shows "\<exists>ys. sum_loop lib terms args n np newterms = Inr ys \<and>
           length ys = length newterms \<and>
           (\<forall>k<length ys. ys ! k =
              (if np \<le> k \<and> 2 * k + 1 < length terms
               then sum2 lib (terms ! (2 * k)) (terms ! (2 * k + 1)) args
               else newterms ! k))"
  using assms
proof (induction lib terms args n np newterms rule: sum_loop.induct)
  case (1 lib terms args n np newterms)
  show ?case
  proof (cases "n < length terms - 1")
    case False
    with "1.prems" have "\<not> (np \<le> k \<and> 2 * k + 1 < length terms)" for k by auto
    then have "\<forall>k<length newterms. newterms ! k =
        (if np \<le> k \<and> 2 * k + 1 < length terms
         then sum2 lib (terms ! (2 * k)) (terms ! (2 * k + 1)) args
         else newterms ! k)"
      by auto
    moreover from False have "sum_loop lib terms args n np newterms = Inr newterms"
      by (simp add: sum_loop.simps [of lib terms args n])
    ultimately show ?thesis by simp
  next
    case True
    let ?v = "sum2 lib (terms ! n) (terms ! (n + 1)) args"
    from True "1.prems" have np: "np < length newterms" by auto
    from True have a: "vec_at terms n = Inr (terms ! n)"
      and b: "vec_at terms (n + 1) = Inr (terms ! (n + 1))"
      by (auto simp: vec_at_def)
    from np have c: "vec_at_assign newterms np ?v = Inr (newterms[np := ?v])"
      by (simp add: vec_at_assign_def)
    from "1.prems" have "n + 2 = 2 * (np + 1)"
      and "length (newterms[np := ?v]) = (length terms + 1) div 2"
      by simp_all
    from "1.IH" [OF True a b c this] obtain ys where
      ys: "sum_loop lib terms args (n + 2) (np + 1) (newterms[np := ?v]) = Inr ys" and
      len: "length ys = length newterms" and
      nth: "\<And>k. k < length ys \<Longrightarrow> ys ! k =
              (if np + 1 \<le> k \<and> 2 * k + 1 < length terms
               then sum2 lib (terms ! (2 * k)) (terms ! (2 * k + 1)) args
               else newterms[np := ?v] ! k)"
      by auto
    have run: "sum_loop lib terms args n np newterms = Inr ys"
      using True a b c ys by (simp add: sum_loop.simps [of lib terms args n])
    have "ys ! k =
        (if np \<le> k \<and> 2 * k + 1 < length terms
         then sum2 lib (terms ! (2 * k)) (terms ! (2 * k + 1)) args
         else newterms ! k)" if k: "k < length ys" for k
    proof (cases "k = np")
      case True
      with nth [OF k] np \<open>n < length terms - 1\<close> "1.prems"(1) show ?thesis by simp
    next
      case False
      with nth [OF k] show ?thesis by auto
    qed
    with run len show ?thesis by blast
  qed
qed

lemma sum_round_pair_up: "sum_round lib terms args = Inr (pair_up lib args terms)"
proof -
  let ?Nt = "length terms"
  let ?h = "(?Nt + 1) div 2"
  let ?new = "replicate ?h (MPS_default lib)"
  have nsize: "(if ?Nt mod 2 = 0 then ?Nt div 2 else (?Nt - 1) div 2 + 1) = ?h"
    by presburger
  have unfold: "sum_round lib terms args =
      (case sum_loop lib terms args 0 0 ?new of
         Inl e \<Rightarrow> Inl e
       | Inr newterms \<Rightarrow>
           if ?Nt mod 2 = 1 then vec_at_assign newterms (?h - 1) (last terms)
           else Inr newterms)"
    by (simp only: sum_round_def Let_def nsize)
  have "length ?new = ?h" by simp
  from sum_loop_nth [OF _ this, of 0 0 lib args] obtain ys where
    ys: "sum_loop lib terms args 0 0 ?new = Inr ys" and
    len: "length ys = ?h" and
    nth: "\<And>k. k < length ys \<Longrightarrow> ys ! k =
            (if 2 * k + 1 < ?Nt then sum2 lib (terms ! (2 * k)) (terms ! (2 * k + 1)) args
             else ?new ! k)"
    by auto
  have pairs: "ys ! k = pair_up lib args terms ! k" if "k < ?h" "2 * k + 1 < ?Nt" for k
    using that nth [of k] nth_pair_up [of k terms lib args] len by simp
  show ?thesis
  proof (cases "?Nt mod 2 = 1")
    case False
    have "ys = pair_up lib args terms"
    proof (rule nth_equalityI)
      show "length ys = length (pair_up lib args terms)" by (simp add: len length_pair_up)
    next
      fix k assume "k < length ys"
      with len have k: "k < ?h" by simp
      with False have "2 * k + 1 < ?Nt" by presburger
      with k show "ys ! k = pair_up lib args terms ! k" by (rule pairs)
    qed
    with False ys show ?thesis by (simp add: unfold)
  next
    case True
    then have pos: "0 < ?h" and ne: "terms \<noteq> []" by auto
    from pos len have "?h - 1 < length ys" by simp
    then have asg: "vec_at_assign ys (?h - 1) (last terms) = Inr (ys[?h - 1 := last terms])"
      by (simp add: vec_at_assign_def)
    have "ys[?h - 1 := last terms] = pair_up lib args terms"
    proof (rule nth_equalityI)
      show "length (ys[?h - 1 := last terms]) = length (pair_up lib args terms)"
        by (simp add: len length_pair_up)
    next
      fix k assume "k < length (ys[?h - 1 := last terms])"
      with len have k: "k < ?h" by simp
      show "ys[?h - 1 := last terms] ! k = pair_up lib args terms ! k"
      proof (cases "k = ?h - 1")
        case eq: True
        with True have twice: "2 * k = ?Nt - 1" by presburger
        with ne have "\<not> 2 * k + 1 < ?Nt" by simp
        with k have "pair_up lib args terms ! k = terms ! (2 * k)"
          by (simp add: nth_pair_up)
        also from ne have "terms ! (2 * k) = last terms"
          by (simp add: twice last_conv_nth)
        finally show ?thesis using k len eq by simp
      next
        case neq: False
        with k True have "2 * k + 1 < ?Nt" by presburger
        with k have "ys ! k = pair_up lib args terms ! k" by (rule pairs)
        with neq show ?thesis by simp
      qed
    qed
    with True ys asg show ?thesis by (simp add: unfold)
  qed
qed

lemma sumv_Nil: "sumv lib [] args = Inr (MPS_default lib)"
  by (simp add: sumv.simps)

lemma sumv_single: "sumv lib [a] args = Inr a"
  by (simp add: sumv.simps vec_at_def)

lemma sumv_two: "sumv lib [a, b] args = Inr (sum2 lib a b args)"
  by (simp add: sumv.simps vec_at_def)

lemma sumv_more: "2 < length terms \<Longrightarrow> sumv lib terms args = sumv lib (pair_up lib args terms) args"
  by (subst sumv.simps) (simp add: sum_round_pair_up)

lemma sumv_total: "\<exists>m. sumv lib terms args = Inr m"
proof (induction "length terms" arbitrary: terms rule: less_induct)
  case less
  consider "length terms = 0" | "length terms = 1" | "length terms = 2" | "2 < length terms"
    by linarith
  then show ?case
  proof cases
    case 1
    then show ?thesis by (simp add: sumv_Nil)
  next
    case 2
    then obtain a where "terms = [a]" by (cases terms) auto
    then show ?thesis by (simp add: sumv_single)
  next
    case 3
    then obtain a b where "terms = [a, b]"
      by (cases terms; cases "tl terms") auto
    then show ?thesis by (simp add: sumv_two)
  next
    case 4
    then have "length (pair_up lib args terms) < length terms"
      by (simp add: length_pair_up)
    from less [OF this] sumv_more [OF 4, of lib args] show ?thesis by simp
  qed
qed

text \<open>
  C6. \<open>sum\<close> of no term is the default-constructed state, of one term that
  term, of two terms their pairwise sum. For more than two terms it is \<open>sum\<close> of
  the list in which every adjacent pair is replaced by its sum and a last
  unpaired term is carried over, a list of half the length (rounded up); so the
  recursion ends, and \<open>sum\<close> returns a state for every list. For three terms
  \<open>a\<close>, \<open>b\<close>, \<open>c\<close> it is \<open>sum(sum(a,b),c)\<close>.
\<close>

theorem sumv_spec:
  "sumv lib [] args = Inr (MPS_default lib) \<and>
   sumv lib [a] args = Inr a \<and>
   sumv lib [a, b] args = Inr (sum2 lib a b args) \<and>
   (2 < length terms \<longrightarrow>
      sumv lib terms args = sumv lib (pair_up lib args terms) args \<and>
      length (pair_up lib args terms) = (length terms + 1) div 2) \<and>
   (\<exists>m. sumv lib terms args = Inr m) \<and>
   sumv lib [a, b, c] args = Inr (sum2 lib (sum2 lib a b args) c args)"
proof -
  have "sumv lib [a, b, c] args = sumv lib (pair_up lib args [a, b, c]) args"
    by (rule sumv_more) simp
  then have "sumv lib [a, b, c] args = Inr (sum2 lib (sum2 lib a b args) c args)"
    by (simp add: sumv_two)
  with sumv_Nil [of lib args] sumv_single [of lib a args] sumv_two [of lib a b args]
    sumv_more [of terms lib args] sumv_total [of lib terms args]
    length_pair_up [of lib args terms]
  show ?thesis by blast
qed

theorem sumv_spec_witness:
  "sumv scalar_lib [] no_args = Inr scalar_MPS_default \<and>
   sumv scalar_lib [psi4] no_args = Inr psi4 \<and>
   sumv scalar_lib [psi4, psi4, psi4, psi4, psi4] no_args =
     sumv scalar_lib
       [scalar_plusEq psi4 psi4 no_args, scalar_plusEq psi4 psi4 no_args, psi4] no_args \<and>
   sumv scalar_lib [psi4, psi4, psi4] no_args =
     Inr (scalar_plusEq (scalar_plusEq psi4 psi4 no_args) psi4 no_args)"
proof -
  have l: "2 < length [psi4, psi4, psi4, psi4, psi4]" by simp
  have d: "MPS_default scalar_lib = scalar_MPS_default" "sum2 scalar_lib = scalar_plusEq"
    by (simp_all add: scalar_lib_def sum2_def fun_eq_iff)
  from sumv_spec [where lib = scalar_lib and args = no_args and a = psi4 and b = psi4
      and c = psi4 and terms = "[psi4, psi4, psi4, psi4, psi4]"] l
  show ?thesis by (simp add: d)
qed

section \<open>Properties of the quantum numbers\<close>

lemma minus_one_power_abs: "(- 1 :: int) ^ nat \<bar>v\<bar> = (if even v then 1 else - 1)"
proof -
  have "even (nat \<bar>v\<bar>) \<longleftrightarrow> even v"
    by (simp add: even_nat_iff)
  then show ?thesis by simp
qed

lemma sector_sign_cases: "sector_sign qv = 1 \<or> sector_sign qv = - 1"
  by (simp add: sector_sign_def minus_one_power_abs)

lemma paritySign_sectors:
  "paritySign (QN v0 v1 v2 v3) = sector_sign v0 * sector_sign v1 * sector_sign v2 * sector_sign v3"
  by (simp add: paritySign_def sector_sign_def)

lemma paritySign_cases: "paritySign q = 1 \<or> paritySign q = - 1"
proof (cases q)
  case (QN v0 v1 v2 v3)
  with sector_sign_cases [of v0] sector_sign_cases [of v1] sector_sign_cases [of v2]
    sector_sign_cases [of v3]
  show ?thesis by (auto simp: paritySign_sectors)
qed

lemma paritySign_power:
  "paritySign q =
    (- 1) ^ sum_list (map (\<lambda>qv. nat \<bar>qval qv\<bar>) (filter isFermionic_QNVal (store q)))"
proof -
  have "prod_list (map (\<lambda>qv. (- 1 :: int) ^ nat \<bar>qval qv\<bar>) xs) =
      (- 1) ^ sum_list (map (\<lambda>qv. nat \<bar>qval qv\<bar>) xs)" for xs :: "QNVal list"
    by (induction xs) (simp_all add: power_add)
  then show ?thesis by (simp add: paritySign_def)
qed

lemma fermion_Inr:
  "fermion canon n = Inr (QN \<lparr>qval = n, qmod = - 1\<rparr> QNVal_default QNVal_default QNVal_default)"
  by (simp add: fermion_def QN_init_def QNVal_init_def QNVal_set_def)

lemma paritySign_fermion:
  "paritySign (QN \<lparr>qval = n, qmod = - 1\<rparr> QNVal_default QNVal_default QNVal_default)
    = (- 1) ^ nat \<bar>n\<bar>"
  by (simp add: paritySign_def isFermionic_QNVal_def QNVal_default_def)

text \<open>
  The sign of a sum of two sectors with the same \<open>mod\<close>, for a sector that is
  not fermionic, or is fermionic with \<open>mod = -1\<close> or with an even modulus.
\<close>

lemma sector_sign_plus:
  assumes congr: "\<And>m v. 1 < m \<Longrightarrow> m dvd canon m v - v"
      and same: "qmod a = qmod b"
      and ok: "isFermionic_QNVal a \<Longrightarrow> qmod a = - 1 \<or> even (qmod a)"
  shows "\<exists>c. QNVal_plus canon a b = Inr c \<and> qmod c = qmod a \<and>
           sector_sign c = sector_sign a * sector_sign b"
proof -
  let ?c = "QNVal_set canon (qval a + qval b) a"
  have plus: "QNVal_plus canon a b = Inr ?c"
    using same by (simp add: QNVal_plus_def)
  have m: "qmod ?c = qmod a"
    by (simp add: QNVal_set_def)
  have "sector_sign ?c = sector_sign a * sector_sign b"
  proof (cases "isFermionic_QNVal a")
    case False
    with same m show ?thesis by (simp add: sector_sign_def isFermionic_QNVal_def)
  next
    case True
    with same m have f: "isFermionic_QNVal b" "isFermionic_QNVal ?c"
      by (simp_all add: isFermionic_QNVal_def)
    have "even (qval ?c) \<longleftrightarrow> even (qval a + qval b)"
    proof (cases "\<bar>qmod a\<bar> > 1")
      case False
      then show ?thesis by (simp add: QNVal_set_def)
    next
      case big: True
      with ok [OF True] have ev: "even \<bar>qmod a\<bar>" by auto
      from congr [OF big] have "\<bar>qmod a\<bar> dvd canon \<bar>qmod a\<bar> (qval a + qval b) - (qval a + qval b)" .
      with ev have "even (canon \<bar>qmod a\<bar> (qval a + qval b) - (qval a + qval b))"
        by (rule dvd_trans)
      then have "even (canon \<bar>qmod a\<bar> (qval a + qval b)) \<longleftrightarrow> even (qval a + qval b)"
        by simp
      with big show ?thesis by (simp add: QNVal_set_def)
    qed
    with True f show ?thesis
      by (simp add: sector_sign_def minus_one_power_abs)
  qed
  with plus m show ?thesis by blast
qed

text \<open>
  C7, with a condition on the fermionic sectors. \<open>paritySign\<close> is the product
  over the fermionic sectors of \<open>(-1)^value\<close>, that is \<open>-1\<close> to the sum of their
  absolute values, so \<open>1\<close> or \<open>-1\<close>; \<open>paritySign(fermion(n))\<close> is \<open>(-1)^n\<close> for
  every \<open>n\<close>; \<open>paritySign(q1+q2) = paritySign(q1)*paritySign(q2)\<close> when the
  sectors of the operands agree in \<open>mod\<close> and every fermionic sector has
  \<open>mod = -1\<close> or an even modulus (the stored value being a representative of the
  residue class of the sum).
\<close>

theorem paritySign_spec:
  "paritySign q =
     (- 1) ^ sum_list (map (\<lambda>qv. nat \<bar>qval qv\<bar>) (filter isFermionic_QNVal (store q))) \<and>
   (paritySign q = 1 \<or> paritySign q = - 1) \<and>
   (\<exists>f. fermion canon n = Inr f \<and> paritySign f = (- 1) ^ nat \<bar>n\<bar>) \<and>
   ((\<forall>m v. 1 < m \<longrightarrow> m dvd canon m v - v) \<and>
    map qmod (store q1) = map qmod (store q2) \<and>
    (\<forall>qv \<in> set (store q1). isFermionic_QNVal qv \<longrightarrow> qmod qv = - 1 \<or> even (qmod qv)) \<longrightarrow>
    (\<exists>s. QN_plus canon q1 q2 = Inr s \<and> paritySign s = paritySign q1 * paritySign q2))"
proof -
  have plus: "\<exists>s. QN_plus canon q1 q2 = Inr s \<and> paritySign s = paritySign q1 * paritySign q2"
    if congr: "\<And>m v. 1 < m \<Longrightarrow> m dvd canon m v - v"
      and same: "map qmod (store q1) = map qmod (store q2)"
      and ok: "\<And>qv. qv \<in> set (store q1) \<Longrightarrow> isFermionic_QNVal qv \<Longrightarrow>
                qmod qv = - 1 \<or> even (qmod qv)"
  proof -
    obtain a0 a1 a2 a3 where q1: "q1 = QN a0 a1 a2 a3" by (cases q1)
    obtain b0 b1 b2 b3 where q2: "q2 = QN b0 b1 b2 b3" by (cases q2)
    from same have m: "qmod a0 = qmod b0" "qmod a1 = qmod b1" "qmod a2 = qmod b2" "qmod a3 = qmod b3"
      by (simp_all add: q1 q2)
    from sector_sign_plus [OF congr m(1)] ok obtain c0 where
      c0: "QNVal_plus canon a0 b0 = Inr c0" "sector_sign c0 = sector_sign a0 * sector_sign b0"
      by (auto simp: q1)
    from sector_sign_plus [OF congr m(2)] ok obtain c1 where
      c1: "QNVal_plus canon a1 b1 = Inr c1" "sector_sign c1 = sector_sign a1 * sector_sign b1"
      by (auto simp: q1)
    from sector_sign_plus [OF congr m(3)] ok obtain c2 where
      c2: "QNVal_plus canon a2 b2 = Inr c2" "sector_sign c2 = sector_sign a2 * sector_sign b2"
      by (auto simp: q1)
    from sector_sign_plus [OF congr m(4)] ok obtain c3 where
      c3: "QNVal_plus canon a3 b3 = Inr c3" "sector_sign c3 = sector_sign a3 * sector_sign b3"
      by (auto simp: q1)
    have "QN_plus canon q1 q2 = Inr (QN c0 c1 c2 c3)"
      by (simp add: q1 q2 c0 c1 c2 c3)
    moreover have "paritySign (QN c0 c1 c2 c3) = paritySign q1 * paritySign q2"
      by (simp add: q1 q2 paritySign_sectors c0 c1 c2 c3)
    ultimately show ?thesis by blast
  qed
  from fermion_Inr [of canon n] paritySign_fermion [of n]
  have "\<exists>f. fermion canon n = Inr f \<and> paritySign f = (- 1) ^ nat \<bar>n\<bar>" by simp
  with plus paritySign_power [of q] paritySign_cases [of q] show ?thesis by blast
qed

lemma canon_nonneg_congr: "m dvd canon_nonneg m v - v"
  by (simp add: canon_nonneg_def mod_eq_dvd_iff [symmetric])

theorem paritySign_spec_witness:
  "paritySign (QN (QNVal_val_mod canon_nonneg 3 (- 1)) (QNVal_val_mod canon_nonneg 1 (- 2))
                  QNVal_default QNVal_default) = 1 \<and>
   fermion canon_nonneg 3 =
     Inr (QN \<lparr>qval = 3, qmod = - 1\<rparr> QNVal_default QNVal_default QNVal_default) \<and>
   paritySign (QN \<lparr>qval = 3, qmod = - 1\<rparr> QNVal_default QNVal_default QNVal_default) = - 1 \<and>
   QN_plus canon_nonneg
     (QN (QNVal_val_mod canon_nonneg 3 (- 1)) (QNVal_val_mod canon_nonneg 1 (- 2))
         QNVal_default QNVal_default)
     (QN (QNVal_val_mod canon_nonneg 2 (- 1)) (QNVal_val_mod canon_nonneg 1 (- 2))
         QNVal_default QNVal_default) =
     Inr (QN \<lparr>qval = 5, qmod = - 1\<rparr> \<lparr>qval = 0, qmod = - 2\<rparr> QNVal_default QNVal_default) \<and>
   paritySign (QN \<lparr>qval = 5, qmod = - 1\<rparr> \<lparr>qval = 0, qmod = - 2\<rparr> QNVal_default QNVal_default) = - 1 \<and>
   paritySign (QN (QNVal_val_mod canon_nonneg 3 (- 1)) (QNVal_val_mod canon_nonneg 1 (- 2))
                  QNVal_default QNVal_default) *
   paritySign (QN (QNVal_val_mod canon_nonneg 2 (- 1)) (QNVal_val_mod canon_nonneg 1 (- 2))
                  QNVal_default QNVal_default) = - 1"
proof -
  let ?q1 = "QN (QNVal_val_mod canon_nonneg 3 (- 1)) (QNVal_val_mod canon_nonneg 1 (- 2))
      QNVal_default QNVal_default"
  let ?q2 = "QN (QNVal_val_mod canon_nonneg 2 (- 1)) (QNVal_val_mod canon_nonneg 1 (- 2))
      QNVal_default QNVal_default"
  have v: "QNVal_val_mod canon_nonneg 3 (- 1) = \<lparr>qval = 3, qmod = - 1\<rparr>"
    "QNVal_val_mod canon_nonneg 2 (- 1) = \<lparr>qval = 2, qmod = - 1\<rparr>"
    "QNVal_val_mod canon_nonneg 1 (- 2) = \<lparr>qval = 1, qmod = - 2\<rparr>"
    by (simp_all add: QNVal_val_mod_def QNVal_set_def canon_nonneg_def)
  have sum: "QN_plus canon_nonneg ?q1 ?q2 =
      Inr (QN \<lparr>qval = 5, qmod = - 1\<rparr> \<lparr>qval = 0, qmod = - 2\<rparr> QNVal_default QNVal_default)"
    by (simp add: v QNVal_plus_def QNVal_set_def QNVal_default_def canon_nonneg_def)
  have same: "map qmod (store ?q1) = map qmod (store ?q2)"
    by (simp add: v)
  have ok: "\<forall>qv \<in> set (store ?q1). isFermionic_QNVal qv \<longrightarrow> qmod qv = - 1 \<or> even (qmod qv)"
    by (simp add: v QNVal_default_def isFermionic_QNVal_def)
  have congr: "\<forall>m v. 1 < m \<longrightarrow> m dvd canon_nonneg m v - v"
    by (simp add: canon_nonneg_congr)
  have p: "paritySign ?q1 = 1" "paritySign ?q2 = - 1"
    by (simp_all add: v paritySign_sectors sector_sign_def isFermionic_QNVal_def QNVal_default_def)
  from paritySign_spec [of ?q1 canon_nonneg 3 ?q1 ?q2] congr same ok
  obtain f s where
    f: "fermion canon_nonneg 3 = Inr f" "paritySign f = (- 1) ^ nat \<bar>3\<bar>" and
    s: "QN_plus canon_nonneg ?q1 ?q2 = Inr s" "paritySign s = paritySign ?q1 * paritySign ?q2"
    by blast
  from f have "paritySign (QN \<lparr>qval = 3, qmod = - 1\<rparr> QNVal_default QNVal_default QNVal_default)
      = - 1"
    by (simp add: fermion_Inr)
  moreover from s sum
  have "paritySign (QN \<lparr>qval = 5, qmod = - 1\<rparr> \<lparr>qval = 0, qmod = - 2\<rparr> QNVal_default QNVal_default)
      = paritySign ?q1 * paritySign ?q2"
    by (simp del: QN_plus.simps)
  ultimately show ?thesis
    using sum p by (simp add: fermion_Inr del: QN_plus.simps)
qed

text \<open>
  C7 as stated fails for a fermionic sector of odd modulus: twice
  \<open>QN({2,-3})\<close> is \<open>QN({1,-3})\<close>, of sign \<open>-1\<close>, while the square of a sign is
  \<open>1\<close>. This is so for both reductions.
\<close>

theorem paritySign_plus_counterexample:
  "QN_plus canon_nonneg
     (QN (QNVal_val_mod canon_nonneg 2 (- 3)) QNVal_default QNVal_default QNVal_default)
     (QN (QNVal_val_mod canon_nonneg 2 (- 3)) QNVal_default QNVal_default QNVal_default) =
     Inr (QN \<lparr>qval = 1, qmod = - 3\<rparr> QNVal_default QNVal_default QNVal_default) \<and>
   QN_plus canon_sym
     (QN (QNVal_val_mod canon_sym 2 (- 3)) QNVal_default QNVal_default QNVal_default)
     (QN (QNVal_val_mod canon_sym 2 (- 3)) QNVal_default QNVal_default QNVal_default) =
     Inr (QN \<lparr>qval = 1, qmod = - 3\<rparr> QNVal_default QNVal_default QNVal_default) \<and>
   paritySign (QN \<lparr>qval = 1, qmod = - 3\<rparr> QNVal_default QNVal_default QNVal_default) = - 1 \<and>
   paritySign (QN (QNVal_val_mod canon_nonneg 2 (- 3)) QNVal_default QNVal_default QNVal_default) *
   paritySign (QN (QNVal_val_mod canon_nonneg 2 (- 3)) QNVal_default QNVal_default QNVal_default) = 1 \<and>
   paritySign (QN (QNVal_val_mod canon_sym 2 (- 3)) QNVal_default QNVal_default QNVal_default) *
   paritySign (QN (QNVal_val_mod canon_sym 2 (- 3)) QNVal_default QNVal_default QNVal_default) = 1"
  by (simp add: QNVal_val_mod_def QNVal_set_def QNVal_plus_def QNVal_default_def canon_nonneg_def
      canon_sym_def paritySign_def isFermionic_QNVal_def)

text \<open>
  C8. The convenience constructors return a quantum number whose sectors have
  these \<open>mod\<close>: \<open>spin\<close> and \<open>boson\<close> 1, \<open>fermion\<close> -1, \<open>fparity\<close> -2,
  \<open>clock(n,N)\<close> \<open>N\<close>, each in the first sector only, the others not used;
  \<open>electron\<close> 1 and -1 in the first two sectors. So \<open>fermion(n)\<close> is fermionic
  for every \<open>n\<close> (in its first sector, hence as a whole), and \<open>fermion(3)\<close> is
  fermionic with \<open>paritySign\<close> -1.
\<close>

theorem constructors_mod:
  "(\<exists>q. spin canon Sz = Inr q \<and> map qmod (store q) = [1, 0, 0, 0]) \<and>
   (\<exists>q. boson canon Nb = Inr q \<and> map qmod (store q) = [1, 0, 0, 0]) \<and>
   (\<exists>q. fermion canon Nf = Inr q \<and> map qmod (store q) = [- 1, 0, 0, 0] \<and>
        isFermionic_at q 1 = Inr True \<and> isFermionic q) \<and>
   (\<exists>q. fparity canon Pf = Inr q \<and> map qmod (store q) = [- 2, 0, 0, 0]) \<and>
   (\<exists>q. clock canon n N = Inr q \<and> map qmod (store q) = [N, 0, 0, 0]) \<and>
   (\<exists>q. electron canon Sz Nf = Inr q \<and> map qmod (store q) = [1, - 1, 0, 0]) \<and>
   (\<exists>q. fermion canon 3 = Inr q \<and> isFermionic q \<and> paritySign q = - 1)"
proof -
  have m: "qmod (QNVal_set canon v qv) = qmod qv" for v qv
    by (simp add: QNVal_set_def)
  have i: "QNVal_init canon [v, md] = Inr (QNVal_set canon v \<lparr>qval = 0, qmod = md\<rparr>)" for v md
    by (simp add: QNVal_init_def)
  have "\<exists>q. spin canon Sz = Inr q \<and> map qmod (store q) = [1, 0, 0, 0]"
    by (simp add: spin_def QN_init_def i m QNVal_default_def)
  moreover have "\<exists>q. boson canon Nb = Inr q \<and> map qmod (store q) = [1, 0, 0, 0]"
    by (simp add: boson_def QN_init_def i m QNVal_default_def)
  moreover have "\<exists>q. fermion canon Nf = Inr q \<and> map qmod (store q) = [- 1, 0, 0, 0] \<and>
      isFermionic_at q 1 = Inr True \<and> isFermionic q"
    by (simp add: fermion_def QN_init_def i m QNVal_default_def isFermionic_def
        isFermionic_QNVal_def isFermionic_at_def QN_mod_def vec_at_def)
  moreover have "\<exists>q. fparity canon Pf = Inr q \<and> map qmod (store q) = [- 2, 0, 0, 0]"
    by (simp add: fparity_def QN_init_def i m QNVal_default_def)
  moreover have "\<exists>q. clock canon n N = Inr q \<and> map qmod (store q) = [N, 0, 0, 0]"
    by (simp add: clock_def QN_init_def i m QNVal_default_def)
  moreover have "\<exists>q. electron canon Sz Nf = Inr q \<and> map qmod (store q) = [1, - 1, 0, 0]"
    by (simp add: electron_def QN_init2_def i m QNVal_default_def)
  moreover have "\<exists>q. fermion canon 3 = Inr q \<and> isFermionic q \<and> paritySign q = - 1"
    by (simp add: fermion_Inr paritySign_fermion isFermionic_def isFermionic_QNVal_def)
  ultimately show ?thesis by blast
qed

theorem constructors_mod_witness:
  "fermion canon_nonneg 3 =
     Inr (QN \<lparr>qval = 3, qmod = - 1\<rparr> QNVal_default QNVal_default QNVal_default) \<and>
   isFermionic (QN \<lparr>qval = 3, qmod = - 1\<rparr> QNVal_default QNVal_default QNVal_default) \<and>
   isFermionic_at (QN \<lparr>qval = 3, qmod = - 1\<rparr> QNVal_default QNVal_default QNVal_default) 1 =
     Inr True \<and>
   paritySign (QN \<lparr>qval = 3, qmod = - 1\<rparr> QNVal_default QNVal_default QNVal_default) = - 1 \<and>
   clock canon_nonneg 5 3 =
     Inr (QN \<lparr>qval = 2, qmod = 3\<rparr> QNVal_default QNVal_default QNVal_default) \<and>
   electron canon_nonneg 1 1 =
     Inr (QN \<lparr>qval = 1, qmod = 1\<rparr> \<lparr>qval = 1, qmod = - 1\<rparr> QNVal_default QNVal_default)"
proof -
  from constructors_mod [of canon_nonneg 1 0 3 0 5 3]
  obtain q where "fermion canon_nonneg 3 = Inr q" "isFermionic q" "paritySign q = - 1"
    by blast
  moreover from constructors_mod [of canon_nonneg 1 0 3 0 5 3]
  obtain q' where "fermion canon_nonneg 3 = Inr q'" "isFermionic_at q' 1 = Inr True"
    by blast
  moreover have "fermion canon_nonneg 3 =
      Inr (QN \<lparr>qval = 3, qmod = - 1\<rparr> QNVal_default QNVal_default QNVal_default)"
    by (rule fermion_Inr)
  moreover have "clock canon_nonneg 5 3 =
      Inr (QN \<lparr>qval = 2, qmod = 3\<rparr> QNVal_default QNVal_default QNVal_default)"
    by (simp add: clock_def QN_init_def QNVal_init_def QNVal_set_def canon_nonneg_def)
  moreover have "electron canon_nonneg 1 1 =
      Inr (QN \<lparr>qval = 1, qmod = 1\<rparr> \<lparr>qval = 1, qmod = - 1\<rparr> QNVal_default QNVal_default)"
    by (simp add: electron_def QN_init2_def QNVal_init_def QNVal_set_def)
  ultimately show ?thesis by simp
qed

end
